theory Spec2Isabelle
  imports Main "HOL-Library.Word"
begin

section \<open>Data model (Scheduler.h)\<close>

text \<open>
  The scheduler keeps its schedules in a singly linked chain of \<open>ScheduleItem\<close> structs
  starting at \<open>schedule_root_node\<close>. The chain is modelled by the list of its nodes in
  \<open>next\<close> order; a \<open>ScheduleItem*\<close> that points into the chain is the position of the node
  (\<open>None\<close> for the null pointer). Every node carries the address it was allocated at
  (\<open>node_addr\<close>), which is what the dispatcher's \<open>current\<close> pointer holds while a callback
  runs.

  The \<open>ScheduleProfile\<close> records are allocated and freed separately from the nodes and a
  node only holds a pointer to its record, so they live in an explicit store
  (\<open>prof_heap\<close>): an address that is not mapped is not allocated. Address \<open>0\<close> is the
  null pointer, for data and for functions.
\<close>

type_synonym uint32_t = "32 word"
type_synonym int16_t = "16 word"
type_synonym address = nat
type_synonym FunctionPointer = nat

abbreviation (input) NULL :: nat where
  "NULL \<equiv> 0"

record ScheduleProfile =
  last_time_micros :: uint32_t
  worst_time_micros :: uint32_t
  best_time_micros :: uint32_t
  execution_count :: uint32_t
  profiling_active :: bool

record ScheduleItem =
  node_addr :: address
  prof_data :: address
  pid :: uint32_t
  thread_time_to_wait :: uint32_t
  thread_period :: uint32_t
  thread_recurs :: int16_t
  thread_enabled :: bool
  thread_fire :: bool
  autoclear :: bool
  schedule_callback :: FunctionPointer

text \<open>The members of the class, with the two that \<open>Scheduler.cpp\<close> uses and the class
  declaration does not list, \<open>overhead\<close> and \<open>currently_executing\<close>, and with the
  store of the profile records.\<close>

record Scheduler =
  next_pid :: uint32_t
  schedule_root_node :: "ScheduleItem list"
  productive_loops :: uint32_t
  total_loops :: uint32_t
  overhead :: uint32_t
  currently_executing :: uint32_t
  prof_heap :: "address \<Rightarrow> ScheduleProfile option"

text \<open>Reading or freeing memory that is not allocated is undefined behaviour in C; the
  model stops with a fault there.\<close>

datatype fault = NullDereference | UseAfterFree | DoubleFree

text \<open>The state after the constructor: the member initialisers of the class.\<close>

definition new_Scheduler :: Scheduler where
  "new_Scheduler = \<lparr> next_pid = 1, schedule_root_node = [], productive_loops = 0,
     total_loops = 0, overhead = 0, currently_executing = 0, prof_heap = (\<lambda>_. None) \<rparr>"

text \<open>The four values of \<open>micros()\<close> that one call of \<open>serviceScheduledEvents\<close> may read,
  in the order of the reads. \<open>profile_start_time\<close> is the content of the local variable of
  that name when line 585 reads it.\<close>

record Clock =
  origin_time :: uint32_t
  profile_start_time :: uint32_t
  profile_last_time :: uint32_t
  finish_time :: uint32_t

section \<open>Traversals of the chain\<close>

text \<open>All search loops of the source have the same shape: walk the chain from the root
  and stop at the first node that passes a test.\<close>

fun first_node :: "(ScheduleItem \<Rightarrow> bool) \<Rightarrow> ScheduleItem list \<Rightarrow> nat option" where
  "first_node P [] = None"
| "first_node P (current # rest) =
     (if P current then Some 0
      else (case first_node P rest of None \<Rightarrow> None | Some i \<Rightarrow> Some (Suc i)))"

definition findNodeByPID :: "Scheduler \<Rightarrow> uint32_t \<Rightarrow> nat option" where
  "findNodeByPID s g_pid = first_node (\<lambda>current. pid current = g_pid) (schedule_root_node s)"

text \<open>Where a node pointer taken before a callback is used after it: the position of the
  node with that address, if the node is still in the chain.\<close>

definition node_position :: "Scheduler \<Rightarrow> address \<Rightarrow> nat option" where
  "node_position s a = first_node (\<lambda>current. node_addr current = a) (schedule_root_node s)"

definition update_node :: "nat \<Rightarrow> (ScheduleItem \<Rightarrow> ScheduleItem) \<Rightarrow> Scheduler \<Rightarrow> Scheduler" where
  "update_node i f s =
     s\<lparr>schedule_root_node := (schedule_root_node s)[i := f (schedule_root_node s ! i)]\<rparr>"

fun getTotalSchedules_loop :: "ScheduleItem list \<Rightarrow> 16 word \<Rightarrow> 16 word" where
  "getTotalSchedules_loop [] return_value = return_value"
| "getTotalSchedules_loop (current # rest) return_value =
     getTotalSchedules_loop rest (return_value + 1)"

definition getTotalSchedules :: "Scheduler \<Rightarrow> 16 word" where
  "getTotalSchedules s = getTotalSchedules_loop (schedule_root_node s) 0"

fun getActiveSchedules_loop :: "ScheduleItem list \<Rightarrow> 16 word \<Rightarrow> 16 word" where
  "getActiveSchedules_loop [] return_value = return_value"
| "getActiveSchedules_loop (current # rest) return_value =
     getActiveSchedules_loop rest
       (if thread_enabled current then return_value + 1 else return_value)"

definition getActiveSchedules :: "Scheduler \<Rightarrow> 16 word" where
  "getActiveSchedules s = getActiveSchedules_loop (schedule_root_node s) 0"

section \<open>Profiling data\<close>

text \<open>\<open>beginProfiling(ScheduleItem*)\<close>. The argument \<open>p_data\<close> is what \<open>malloc\<close> returns;
  the source writes through it without a check.\<close>

definition beginProfiling_obj :: "Scheduler \<Rightarrow> address \<Rightarrow> nat option \<Rightarrow> fault + Scheduler" where
  "beginProfiling_obj s p_data target =
     (case target of
        None \<Rightarrow> Inr s
      | Some i \<Rightarrow>
          if prof_data (schedule_root_node s ! i) = NULL then
            (if p_data = NULL then Inl NullDereference
             else Inr ((update_node i (\<lambda>t. t\<lparr>prof_data := p_data\<rparr>) s)
                    \<lparr>prof_heap := (prof_heap s)(p_data \<mapsto>
                       \<lparr> last_time_micros = 0, worst_time_micros = 0,
                         best_time_micros = 0xFFFFFFFF, execution_count = 0,
                         profiling_active = True \<rparr>)\<rparr>))
          else Inr s)"

definition beginProfiling :: "Scheduler \<Rightarrow> address \<Rightarrow> uint32_t \<Rightarrow> fault + Scheduler" where
  "beginProfiling s p_data g_pid = beginProfiling_obj s p_data (findNodeByPID s g_pid)"

definition stopProfiling_obj :: "Scheduler \<Rightarrow> nat option \<Rightarrow> fault + Scheduler" where
  "stopProfiling_obj s obj =
     (case obj of
        None \<Rightarrow> Inr s
      | Some i \<Rightarrow>
          (let p_data = prof_data (schedule_root_node s ! i) in
           if p_data \<noteq> NULL then
             (case prof_heap s p_data of
                None \<Rightarrow> Inl UseAfterFree
              | Some r \<Rightarrow> Inr (s\<lparr>prof_heap := (prof_heap s)(p_data \<mapsto> r\<lparr>profiling_active := False\<rparr>)\<rparr>))
           else Inr s))"

definition stopProfiling :: "Scheduler \<Rightarrow> uint32_t \<Rightarrow> fault + Scheduler" where
  "stopProfiling s g_pid = stopProfiling_obj s (findNodeByPID s g_pid)"

text \<open>\<open>clearProfilingData(ScheduleItem*)\<close> frees the record and then assigns \<open>NULL\<close> to
  its local copy of the pointer, \<open>p_data\<close>; the member \<open>obj->prof_data\<close> is not written.\<close>

definition clearProfilingData_obj :: "Scheduler \<Rightarrow> nat option \<Rightarrow> fault + Scheduler" where
  "clearProfilingData_obj s obj =
     (case obj of
        None \<Rightarrow> Inr s
      | Some i \<Rightarrow>
          (let p_data = prof_data (schedule_root_node s ! i) in
           if p_data \<noteq> NULL then
             (case prof_heap s p_data of
                None \<Rightarrow> Inl DoubleFree
              | Some r \<Rightarrow> Inr (s\<lparr>prof_heap := (prof_heap s)(p_data := None)\<rparr>))
           else Inr s))"

definition clearProfilingData :: "Scheduler \<Rightarrow> uint32_t \<Rightarrow> fault + Scheduler" where
  "clearProfilingData s g_pid = clearProfilingData_obj s (findNodeByPID s g_pid)"

definition scheduleBeingProfiled_obj :: "Scheduler \<Rightarrow> nat option \<Rightarrow> fault + bool" where
  "scheduleBeingProfiled_obj s obj =
     (case obj of
        None \<Rightarrow> Inr False
      | Some i \<Rightarrow>
          (let p_data = prof_data (schedule_root_node s ! i) in
           if p_data \<noteq> NULL then
             (case prof_heap s p_data of
                None \<Rightarrow> Inl UseAfterFree
              | Some r \<Rightarrow> Inr (profiling_active r))
           else Inr False))"

definition scheduleBeingProfiled :: "Scheduler \<Rightarrow> uint32_t \<Rightarrow> fault + bool" where
  "scheduleBeingProfiled s g_pid = scheduleBeingProfiled_obj s (findNodeByPID s g_pid)"

section \<open>Linked-list helpers\<close>

text \<open>\<open>insertScheduleItemAtEnd\<close> walks to the last node and links \<open>nu\<close> behind it, or makes
  \<open>nu\<close> the root of an empty chain (and then returns false).\<close>

definition insertScheduleItemAtEnd :: "Scheduler \<Rightarrow> ScheduleItem \<Rightarrow> bool \<times> Scheduler" where
  "insertScheduleItemAtEnd s nu =
     (schedule_root_node s \<noteq> [], s\<lparr>schedule_root_node := schedule_root_node s @ [nu]\<rparr>)"

text \<open>\<open>destroyScheduleItem\<close> links the predecessor (or the root) to the successor of
  \<open>r_node\<close>, clears the profiling data of \<open>r_node\<close> and frees it.\<close>

definition unlink_node :: "nat \<Rightarrow> ScheduleItem list \<Rightarrow> ScheduleItem list" where
  "unlink_node i chain = take i chain @ drop (Suc i) chain"

definition destroyScheduleItem :: "Scheduler \<Rightarrow> nat option \<Rightarrow> fault + Scheduler" where
  "destroyScheduleItem s r_node =
     (case r_node of
        None \<Rightarrow> Inr s
      | Some i \<Rightarrow>
          (case clearProfilingData_obj s (Some i) of
             Inl e \<Rightarrow> Inl e
           | Inr s' \<Rightarrow> Inr (s'\<lparr>schedule_root_node := unlink_node i (schedule_root_node s')\<rparr>)))"

function get_valid_new_pid :: "Scheduler \<Rightarrow> uint32_t \<times> Scheduler" where
  "get_valid_new_pid s =
     (let return_value = next_pid s;
          s' = s\<lparr>next_pid := next_pid s + 1\<rparr>
      in if return_value = 0 then get_valid_new_pid s' else (return_value, s'))"
  by pat_completeness auto
termination
  by (relation "measure (\<lambda>s. if next_pid s = 0 then 1 else 0)") auto

definition peekNextPID :: "Scheduler \<Rightarrow> uint32_t" where
  "peekNextPID s = next_pid s"

section \<open>Creating and altering schedules\<close>

text \<open>\<open>createSchedule\<close>. The argument \<open>nu_sched\<close> is what \<open>malloc\<close> returns, \<open>NULL\<close> when the
  allocation fails. \<open>bzero\<close> clears the whole struct, so \<open>prof_data\<close> starts as \<open>NULL\<close>.\<close>

definition createSchedule ::
  "Scheduler \<Rightarrow> address \<Rightarrow> uint32_t \<Rightarrow> int16_t \<Rightarrow> bool \<Rightarrow> FunctionPointer \<Rightarrow> uint32_t \<times> Scheduler" where
  "createSchedule s nu_sched sch_period recurrence ac sch_callback =
     (if sch_period > 1 then
        (if sch_callback \<noteq> NULL then
           (if nu_sched \<noteq> NULL then
              (let (new_pid, s1) = get_valid_new_pid s;
                   nu = \<lparr> node_addr = nu_sched, prof_data = NULL, pid = new_pid,
                          thread_time_to_wait = sch_period, thread_period = sch_period,
                          thread_recurs = recurrence, thread_enabled = True,
                          thread_fire = False, autoclear = ac,
                          schedule_callback = sch_callback \<rparr>
               in (new_pid, snd (insertScheduleItemAtEnd s1 nu)))
            else (0, s))
         else (0, s))
      else (0, s))"

definition alterSchedule_obj ::
  "Scheduler \<Rightarrow> nat option \<Rightarrow> uint32_t \<Rightarrow> int16_t \<Rightarrow> bool \<Rightarrow> FunctionPointer \<Rightarrow> bool \<times> Scheduler" where
  "alterSchedule_obj s obj sch_period recurrence ac sch_callback =
     (if sch_period > 1 then
        (if sch_callback \<noteq> NULL then
           (case obj of
              Some i \<Rightarrow>
                (True, update_node i (\<lambda>t. t\<lparr> thread_fire := False, thread_recurs := recurrence,
                    thread_period := sch_period, thread_time_to_wait := sch_period,
                    autoclear := ac, schedule_callback := sch_callback \<rparr>) s)
            | None \<Rightarrow> (False, s))
         else (False, s))
      else (False, s))"

definition alterSchedule ::
  "Scheduler \<Rightarrow> uint32_t \<Rightarrow> uint32_t \<Rightarrow> int16_t \<Rightarrow> bool \<Rightarrow> FunctionPointer \<Rightarrow> bool \<times> Scheduler" where
  "alterSchedule s g_pid sch_period recurrence ac sch_callback =
     alterSchedule_obj s (findNodeByPID s g_pid) sch_period recurrence ac sch_callback"

definition alterSchedule_autoclear :: "Scheduler \<Rightarrow> uint32_t \<Rightarrow> bool \<Rightarrow> bool \<times> Scheduler" where
  "alterSchedule_autoclear s schedule_index ac =
     (case findNodeByPID s schedule_index of
        Some i \<Rightarrow> (True, update_node i (\<lambda>t. t\<lparr>autoclear := ac\<rparr>) s)
      | None \<Rightarrow> (False, s))"

definition alterSchedule_callback :: "Scheduler \<Rightarrow> uint32_t \<Rightarrow> FunctionPointer \<Rightarrow> bool \<times> Scheduler" where
  "alterSchedule_callback s schedule_index sch_callback =
     (if sch_callback \<noteq> NULL then
        (case findNodeByPID s schedule_index of
           Some i \<Rightarrow> (True, update_node i (\<lambda>t. t\<lparr>schedule_callback := sch_callback\<rparr>) s)
         | None \<Rightarrow> (False, s))
      else (False, s))"

definition alterSchedulePeriod :: "Scheduler \<Rightarrow> uint32_t \<Rightarrow> uint32_t \<Rightarrow> bool \<times> Scheduler" where
  "alterSchedulePeriod s schedule_index sch_period =
     (if sch_period > 1 then
        (case findNodeByPID s schedule_index of
           Some i \<Rightarrow>
             (True, update_node i (\<lambda>t. t\<lparr> thread_fire := False, thread_period := sch_period,
                 thread_time_to_wait := sch_period \<rparr>) s)
         | None \<Rightarrow> (False, s))
      else (False, s))"

definition alterScheduleRecurrence :: "Scheduler \<Rightarrow> uint32_t \<Rightarrow> int16_t \<Rightarrow> bool \<times> Scheduler" where
  "alterScheduleRecurrence s schedule_index recurrence =
     (case findNodeByPID s schedule_index of
        Some i \<Rightarrow>
          (True, update_node i (\<lambda>t. t\<lparr> thread_fire := False, thread_recurs := recurrence \<rparr>) s)
      | None \<Rightarrow> (False, s))"

section \<open>Queries, enabling, disabling, delaying\<close>

definition willRunAgain :: "Scheduler \<Rightarrow> uint32_t \<Rightarrow> bool" where
  "willRunAgain s g_pid =
     (case findNodeByPID s g_pid of
        Some i \<Rightarrow>
          (let nu_sched = schedule_root_node s ! i in
           if thread_enabled nu_sched then
             (if thread_recurs nu_sched = - 1 \<or> 0 <s thread_recurs nu_sched then True else False)
           else False)
      | None \<Rightarrow> False)"

definition scheduleEnabled :: "Scheduler \<Rightarrow> uint32_t \<Rightarrow> bool" where
  "scheduleEnabled s g_pid =
     (case findNodeByPID s g_pid of
        Some i \<Rightarrow> thread_enabled (schedule_root_node s ! i)
      | None \<Rightarrow> False)"

definition enableSchedule :: "Scheduler \<Rightarrow> uint32_t \<Rightarrow> bool \<times> Scheduler" where
  "enableSchedule s g_pid =
     (case findNodeByPID s g_pid of
        Some i \<Rightarrow> (True, update_node i (\<lambda>t. t\<lparr>thread_enabled := True\<rparr>) s)
      | None \<Rightarrow> (False, s))"

definition delaySchedule_obj :: "Scheduler \<Rightarrow> nat option \<Rightarrow> uint32_t \<Rightarrow> bool \<times> Scheduler" where
  "delaySchedule_obj s obj by_ms =
     (case obj of
        Some i \<Rightarrow>
          (True, update_node i (\<lambda>t. t\<lparr>thread_time_to_wait := by_ms, thread_enabled := True\<rparr>) s)
      | None \<Rightarrow> (False, s))"

definition delaySchedule :: "Scheduler \<Rightarrow> uint32_t \<Rightarrow> uint32_t \<Rightarrow> bool \<times> Scheduler" where
  "delaySchedule s g_pid by_ms =
     (case findNodeByPID s g_pid of
        Some i \<Rightarrow> (True, snd (delaySchedule_obj s (Some i) by_ms))
      | None \<Rightarrow> (False, s))"

definition delaySchedule_period :: "Scheduler \<Rightarrow> uint32_t \<Rightarrow> bool \<times> Scheduler" where
  "delaySchedule_period s g_pid =
     (case findNodeByPID s g_pid of
        Some i \<Rightarrow>
          (True, snd (delaySchedule_obj s (Some i) (thread_period (schedule_root_node s ! i))))
      | None \<Rightarrow> (False, s))"

definition disableSchedule :: "Scheduler \<Rightarrow> uint32_t \<Rightarrow> bool \<times> Scheduler" where
  "disableSchedule s g_pid =
     (case findNodeByPID s g_pid of
        Some i \<Rightarrow>
          (True, update_node i (\<lambda>t. t\<lparr> thread_enabled := False, thread_fire := False,
              thread_time_to_wait := thread_period t \<rparr>) s)
      | None \<Rightarrow> (False, s))"

definition removeSchedule :: "Scheduler \<Rightarrow> uint32_t \<Rightarrow> fault + (bool \<times> Scheduler)" where
  "removeSchedule s g_pid =
     (case findNodeByPID s g_pid of
        Some i \<Rightarrow>
          (if pid (schedule_root_node s ! i) \<noteq> currently_executing s then
             (case destroyScheduleItem s (Some i) of
                Inl e \<Rightarrow> Inl e
              | Inr s' \<Rightarrow> Inr (True, s'))
           else Inr (True, update_node i (\<lambda>t. t\<lparr>autoclear := True, thread_recurs := 0\<rparr>) s))
      | None \<Rightarrow> Inr (True, s))"

section \<open>The tick\<close>

definition advance_node :: "ScheduleItem \<Rightarrow> ScheduleItem" where
  "advance_node current =
     (if thread_enabled current then
        (if thread_time_to_wait current > 0
         then current\<lparr>thread_time_to_wait := thread_time_to_wait current - 1\<rparr>
         else current\<lparr>thread_fire := True, thread_time_to_wait := thread_period current\<rparr>)
      else current)"

fun advanceScheduler_loop :: "ScheduleItem list \<Rightarrow> ScheduleItem list" where
  "advanceScheduler_loop [] = []"
| "advanceScheduler_loop (current # rest) = advance_node current # advanceScheduler_loop rest"

definition advanceScheduler :: "Scheduler \<Rightarrow> Scheduler" where
  "advanceScheduler s = s\<lparr>schedule_root_node := advanceScheduler_loop (schedule_root_node s)\<rparr>"

section \<open>Dispatch\<close>

text \<open>
  A callback is code outside the scheduler. What a call of it does to the scheduler (it
  may call any public function, also \<open>removeSchedule\<close> on its own PID) is given by the
  parameter \<open>call\<close>: the state transformer of every function address.

  \<open>run_callback\<close> is the body of \<open>if (current->schedule_callback != NULL)\<close>, lines 576 to
  590, for the node at position \<open>i\<close>. It returns the state and the position at which
  \<open>current\<close> is found after the call; a callback that got the node freed leaves
  \<open>current\<close> dangling.
\<close>

definition record_sample :: "Clock \<Rightarrow> ScheduleProfile \<Rightarrow> ScheduleProfile" where
  "record_sample clk r =
     (let last = max (profile_start_time clk) (profile_last_time clk)
                 - min (profile_start_time clk) (profile_last_time clk)
      in r\<lparr> last_time_micros := last,
             worst_time_micros := max (worst_time_micros r) last,
             best_time_micros := min (best_time_micros r) last,
             execution_count := execution_count r + 1 \<rparr>)"

definition run_callback ::
  "(FunctionPointer \<Rightarrow> Scheduler \<Rightarrow> Scheduler) \<Rightarrow> Clock \<Rightarrow> Scheduler \<Rightarrow> nat \<Rightarrow> fault + (Scheduler \<times> nat)" where
  "run_callback call clk s i =
     (let current = schedule_root_node s ! i in
      case scheduleBeingProfiled_obj s (Some i) of
        Inl e \<Rightarrow> Inl e
      | Inr _ \<Rightarrow>
          (let s1 = s\<lparr>currently_executing := pid current\<rparr>;
               s2 = call (schedule_callback current) s1;
               s3 = s2\<lparr>currently_executing := 0\<rparr>
           in case node_position s3 (node_addr current) of
                None \<Rightarrow> Inl UseAfterFree
              | Some j \<Rightarrow>
                  (case scheduleBeingProfiled_obj s3 (Some j) of
                     Inl e \<Rightarrow> Inl e
                   | Inr profiled \<Rightarrow>
                       if profiled then
                         (let p = prof_data (schedule_root_node s3 ! j) in
                          case prof_heap s3 p of
                            None \<Rightarrow> Inl UseAfterFree
                          | Some r \<Rightarrow>
                              Inr (s3\<lparr>prof_heap := (prof_heap s3)(p \<mapsto> record_sample clk r)\<rparr>, j))
                       else Inr (s3, j))))"

text \<open>Lines 591 to 611: the pending flag is cleared and the \<open>switch\<close> on
  \<open>thread_recurs\<close> is applied to the node at position \<open>j\<close>.\<close>

definition apply_recurrence :: "Scheduler \<Rightarrow> nat \<Rightarrow> fault + Scheduler" where
  "apply_recurrence s j =
     (let s1 = update_node j (\<lambda>t. t\<lparr>thread_fire := False\<rparr>) s;
          current = schedule_root_node s1 ! j
      in if thread_recurs current = - 1 then Inr s1
         else if thread_recurs current = 0 then
           (if autoclear current then destroyScheduleItem s1 (Some j)
            else Inr (update_node j (\<lambda>t. t\<lparr> thread_enabled := False, thread_fire := False,
                        thread_time_to_wait := thread_period t \<rparr>) s1))
         else Inr (update_node j (\<lambda>t. t\<lparr>thread_recurs := thread_recurs t - 1\<rparr>) s1))"

text \<open>The body of \<open>if (current->thread_fire)\<close> up to the \<open>break\<close>.\<close>

definition service_node ::
  "(FunctionPointer \<Rightarrow> Scheduler \<Rightarrow> Scheduler) \<Rightarrow> Clock \<Rightarrow> Scheduler \<Rightarrow> nat \<Rightarrow> fault + Scheduler" where
  "service_node call clk s i =
     (case (if schedule_callback (schedule_root_node s ! i) \<noteq> NULL
            then run_callback call clk s i else Inr (s, i)) of
        Inl e \<Rightarrow> Inl e
      | Inr (s', j) \<Rightarrow>
          (case apply_recurrence s' j of
             Inl e \<Rightarrow> Inl e
           | Inr s'' \<Rightarrow> Inr (s''\<lparr>productive_loops := productive_loops s'' + 1\<rparr>)))"

text \<open>The \<open>while\<close> loop walks the chain to the first node with \<open>thread_fire\<close> set, services
  it and leaves the loop; the two statements after the loop close the call.\<close>

definition serviceScheduledEvents ::
  "(FunctionPointer \<Rightarrow> Scheduler \<Rightarrow> Scheduler) \<Rightarrow> Clock \<Rightarrow> Scheduler \<Rightarrow> fault + Scheduler" where
  "serviceScheduledEvents call clk s =
     (case (case first_node thread_fire (schedule_root_node s) of
              None \<Rightarrow> Inr s
            | Some i \<Rightarrow> service_node call clk s i) of
        Inl e \<Rightarrow> Inl e
      | Inr s' \<Rightarrow>
          Inr (s'\<lparr> overhead := finish_time clk - origin_time clk,
                  total_loops := total_loops s' + 1 \<rparr>))"

section \<open>Notions used in the statements\<close>

text \<open>The node at position \<open>i\<close> holds no profile pointer, or one to an allocated record.
  Only \<open>clearProfilingData\<close> can break this.\<close>

definition profile_allocated :: "Scheduler \<Rightarrow> nat \<Rightarrow> bool" where
  "profile_allocated s i \<longleftrightarrow>
     prof_data (schedule_root_node s ! i) = NULL
     \<or> prof_heap s (prof_data (schedule_root_node s ! i)) \<noteq> None"

text \<open>The profile store after the record of the node at position \<open>i\<close> has been freed.\<close>

definition free_profile :: "Scheduler \<Rightarrow> nat \<Rightarrow> address \<Rightarrow> ScheduleProfile option" where
  "free_profile s i =
     (if prof_data (schedule_root_node s ! i) = NULL then prof_heap s
      else (prof_heap s)(prof_data (schedule_root_node s ! i) := None))"

text \<open>A scheduler with one schedule, made by the constructor and one call of
  \<open>createSchedule\<close>: period 2, callback at address 7, node allocated at address 100.\<close>

definition single :: "int16_t \<Rightarrow> bool \<Rightarrow> Scheduler" where
  "single recurrence ac = snd (createSchedule new_Scheduler 100 2 recurrence ac 7)"

text \<open>The schedule of \<open>single\<close> after three ticks: enabled and pending.\<close>

definition pending_single :: "int16_t \<Rightarrow> bool \<Rightarrow> Scheduler" where
  "pending_single recurrence ac = (advanceScheduler ^^ 3) (single recurrence ac)"

text \<open>The schedule of \<open>single\<close> after \<open>beginProfiling\<close> with a record allocated at
  address 200, and the same state after the record has been freed.\<close>

definition profiled_single :: Scheduler where
  "profiled_single =
     \<lparr> next_pid = 2,
       schedule_root_node =
         [\<lparr> node_addr = 100, prof_data = 200, pid = 1, thread_time_to_wait = 2,
            thread_period = 2, thread_recurs = - 1, thread_enabled = True,
            thread_fire = False, autoclear = False, schedule_callback = 7 \<rparr>],
       productive_loops = 0, total_loops = 0, overhead = 0, currently_executing = 0,
       prof_heap = (\<lambda>_. None)(200 \<mapsto>
         \<lparr> last_time_micros = 0, worst_time_micros = 0, best_time_micros = 0xFFFFFFFF,
           execution_count = 0, profiling_active = True \<rparr>) \<rparr>"

definition cleared_single :: Scheduler where
  "cleared_single = profiled_single\<lparr>prof_heap := (\<lambda>_. None)\<rparr>"

text \<open>The profile store after the dispatcher has sampled the run of the node at position
  \<open>i\<close>: the record is rewritten when the node has one and it is active.\<close>

definition sample_profile :: "Clock \<Rightarrow> Scheduler \<Rightarrow> nat \<Rightarrow> address \<Rightarrow> ScheduleProfile option" where
  "sample_profile clk s i =
     (let p = prof_data (schedule_root_node s ! i) in
      if p = NULL then prof_heap s
      else (case prof_heap s p of
              None \<Rightarrow> prof_heap s
            | Some r \<Rightarrow>
                if profiling_active r then (prof_heap s)(p \<mapsto> record_sample clk r)
                else prof_heap s))"

text \<open>Clock readings for the examples.\<close>

definition example_clock :: Clock where
  "example_clock = \<lparr> origin_time = 10, profile_start_time = 11, profile_last_time = 14,
     finish_time = 15 \<rparr>"

text \<open>Two schedules of period 2, made by two calls of \<open>createSchedule\<close>, after three ticks:
  both are pending.\<close>

definition pending_double :: "int16_t \<Rightarrow> bool \<Rightarrow> Scheduler" where
  "pending_double recurrence ac =
     (advanceScheduler ^^ 3) (snd (createSchedule (single recurrence ac) 101 2 (- 1) False 8))"

text \<open>The reset invariant: a node that is disabled waits for its whole period and is not
  pending.\<close>

definition node_reset :: "ScheduleItem \<Rightarrow> bool" where
  "node_reset t \<longleftrightarrow>
     (\<not> thread_enabled t \<longrightarrow> thread_time_to_wait t = thread_period t \<and> \<not> thread_fire t)"

definition reset_invariant :: "Scheduler \<Rightarrow> bool" where
  "reset_invariant s \<longleftrightarrow> (\<forall>t \<in> set (schedule_root_node s). node_reset t)"

text \<open>The public operations that change schedules, as one step function.\<close>

datatype operation =
    Create address uint32_t int16_t bool FunctionPointer
  | Alter uint32_t uint32_t int16_t bool FunctionPointer
  | AlterAutoclear uint32_t bool
  | AlterCallback uint32_t FunctionPointer
  | AlterPeriod uint32_t uint32_t
  | AlterRecurrence uint32_t int16_t
  | Enable uint32_t
  | Disable uint32_t
  | Delay uint32_t uint32_t
  | DelayPeriod uint32_t
  | Remove uint32_t
  | Advance
  | Dispatch Clock

fun perform ::
  "(FunctionPointer \<Rightarrow> Scheduler \<Rightarrow> Scheduler) \<Rightarrow> operation \<Rightarrow> Scheduler \<Rightarrow> fault + Scheduler" where
  "perform call (Create nu_sched sch_period recurrence ac sch_callback) s =
     Inr (snd (createSchedule s nu_sched sch_period recurrence ac sch_callback))"
| "perform call (Alter g_pid sch_period recurrence ac sch_callback) s =
     Inr (snd (alterSchedule s g_pid sch_period recurrence ac sch_callback))"
| "perform call (AlterAutoclear g_pid ac) s = Inr (snd (alterSchedule_autoclear s g_pid ac))"
| "perform call (AlterCallback g_pid sch_callback) s =
     Inr (snd (alterSchedule_callback s g_pid sch_callback))"
| "perform call (AlterPeriod g_pid sch_period) s = Inr (snd (alterSchedulePeriod s g_pid sch_period))"
| "perform call (AlterRecurrence g_pid recurrence) s =
     Inr (snd (alterScheduleRecurrence s g_pid recurrence))"
| "perform call (Enable g_pid) s = Inr (snd (enableSchedule s g_pid))"
| "perform call (Disable g_pid) s = Inr (snd (disableSchedule s g_pid))"
| "perform call (Delay g_pid by_ms) s = Inr (snd (delaySchedule s g_pid by_ms))"
| "perform call (DelayPeriod g_pid) s = Inr (snd (delaySchedule_period s g_pid))"
| "perform call (Remove g_pid) s =
     (case removeSchedule s g_pid of Inl e \<Rightarrow> Inl e | Inr (return_value, s') \<Rightarrow> Inr s')"
| "perform call Advance s = Inr (advanceScheduler s)"
| "perform call (Dispatch clk) s = serviceScheduledEvents call clk s"

text \<open>A callback environment for the examples: the function at address 7 calls
  \<open>removeSchedule\<close> on PID 1, every other one leaves the scheduler alone.\<close>

definition remove_itself :: "FunctionPointer \<Rightarrow> Scheduler \<Rightarrow> Scheduler" where
  "remove_itself f st =
     (if f = 7 then (case removeSchedule st 1 of Inr (return_value, st') \<Rightarrow> st' | Inl e \<Rightarrow> st)
      else st)"

text \<open>A second callback environment: the function at address 7 sets \<open>autoclear\<close> of the
  schedule with PID 2, every other one leaves the scheduler alone.\<close>

definition mark_other :: "FunctionPointer \<Rightarrow> Scheduler \<Rightarrow> Scheduler" where
  "mark_other f st = (if f = 7 then snd (alterSchedule_autoclear st 2 True) else st)"

section \<open>Facts about the traversals and the helpers\<close>

lemma first_node_SomeD:
  "first_node P xs = Some i \<Longrightarrow> i < length xs \<and> P (xs ! i) \<and> (\<forall>j<i. \<not> P (xs ! j))"
proof (induction xs arbitrary: i)
  case Nil
  then show ?case by simp
next
  case (Cons x xs)
  show ?case
  proof (cases "P x")
    case True
    with Cons.prems show ?thesis by simp
  next
    case False
    with Cons.prems obtain k where k: "first_node P xs = Some k" "i = Suc k"
      by (auto split: option.splits)
    from Cons.IH [OF k(1)] False k(2) show ?thesis
      by (auto simp: nth_Cons split: nat.splits)
  qed
qed

lemma first_node_None_iff: "first_node P xs = None \<longleftrightarrow> (\<forall>x\<in>set xs. \<not> P x)"
  by (induction xs) (auto split: option.splits)

lemma clearProfilingData_obj_allocated:
  "profile_allocated s i \<Longrightarrow>
   clearProfilingData_obj s (Some i) = Inr (s\<lparr>prof_heap := free_profile s i\<rparr>)"
  by (auto simp: clearProfilingData_obj_def profile_allocated_def free_profile_def Let_def
      split: option.splits)

lemma destroyScheduleItem_allocated:
  "profile_allocated s i \<Longrightarrow>
   destroyScheduleItem s (Some i) =
     Inr (s\<lparr>prof_heap := free_profile s i,
            schedule_root_node := unlink_node i (schedule_root_node s)\<rparr>)"
  by (simp add: destroyScheduleItem_def clearProfilingData_obj_allocated)

lemma destroyScheduleItem_fault:
  "destroyScheduleItem s r = Inl e \<Longrightarrow> \<exists>i. r = Some i \<and> \<not> profile_allocated s i \<and> e = DoubleFree"
  by (auto simp: destroyScheduleItem_def clearProfilingData_obj_def profile_allocated_def Let_def
      split: option.splits if_splits sum.splits)

lemma get_valid_new_pid_eq:
  "get_valid_new_pid s =
     (if next_pid s = 0 then (1, s\<lparr>next_pid := 2\<rparr>)
      else (next_pid s, s\<lparr>next_pid := next_pid s + 1\<rparr>))"
proof (cases "next_pid s = 0")
  case True
  then show ?thesis
    by (subst get_valid_new_pid.simps, subst get_valid_new_pid.simps) (simp add: Let_def)
next
  case False
  then show ?thesis
    by (subst get_valid_new_pid.simps) (simp add: Let_def)
qed

declare get_valid_new_pid.simps [simp del]

lemma single_eq:
  "single recurrence ac =
     \<lparr> next_pid = 2,
       schedule_root_node =
         [\<lparr> node_addr = 100, prof_data = NULL, pid = 1, thread_time_to_wait = 2,
            thread_period = 2, thread_recurs = recurrence, thread_enabled = True,
            thread_fire = False, autoclear = ac, schedule_callback = 7 \<rparr>],
       productive_loops = 0, total_loops = 0, overhead = 0, currently_executing = 0,
       prof_heap = (\<lambda>_. None) \<rparr>"
  by (simp add: single_def createSchedule_def get_valid_new_pid_eq new_Scheduler_def
      insertScheduleItemAtEnd_def)

lemma advanceScheduler_loop_map: "advanceScheduler_loop chain = map advance_node chain"
  by (induction chain) simp_all

lemma advanceScheduler_iterated:
  "(advanceScheduler ^^ n) s =
     s\<lparr>schedule_root_node := map (advance_node ^^ n) (schedule_root_node s)\<rparr>"
proof (induction n)
  case 0
  then show ?case by (simp add: map_idI)
next
  case (Suc n)
  then show ?case
    by (simp add: advanceScheduler_def advanceScheduler_loop_map)
qed

lemma advance_node_disabled: "\<not> thread_enabled t \<Longrightarrow> (advance_node ^^ n) t = t"
  by (induction n) (simp_all add: advance_node_def)

lemma word_countdown_pos:
  fixes w :: uint32_t
  assumes "n < unat w"
  shows "0 < w - of_nat n"
proof -
  have "w \<noteq> of_nat n"
  proof
    assume "w = of_nat n"
    then have "unat w = unat (of_nat n :: uint32_t)" by simp
    also have "\<dots> \<le> n" by (simp add: unat_of_nat)
    finally show False using assms by simp
  qed
  then show ?thesis by (simp add: word_gt_0)
qed

lemma advance_node_countdown:
  "thread_enabled t \<Longrightarrow> n \<le> unat (thread_time_to_wait t) \<Longrightarrow>
   (advance_node ^^ n) t = t\<lparr>thread_time_to_wait := thread_time_to_wait t - of_nat n\<rparr>"
proof (induction n)
  case 0
  then show ?case by simp
next
  case (Suc n)
  then have "n < unat (thread_time_to_wait t)" by simp
  from word_countdown_pos [OF this] Suc show ?case
    by (simp add: advance_node_def)
qed

lemma advance_node_fires:
  assumes "thread_enabled t"
  shows "(advance_node ^^ Suc (unat (thread_time_to_wait t))) t =
           t\<lparr>thread_fire := True, thread_time_to_wait := thread_period t\<rparr>"
proof -
  have "(advance_node ^^ unat (thread_time_to_wait t)) t = t\<lparr>thread_time_to_wait := 0\<rparr>"
    using advance_node_countdown [OF assms order_refl] by simp
  with assms show ?thesis
    by (simp add: advance_node_def)
qed

lemma pid_advance_node_iterated: "pid ((advance_node ^^ n) t) = pid t"
  by (induction n) (simp_all add: advance_node_def)

lemma first_node_map:
  "(\<And>x. P (f x) = P x) \<Longrightarrow> first_node P (map f chain) = first_node P chain"
  by (induction chain) simp_all

lemma first_node_update:
  "i < length chain \<Longrightarrow> P x = P (chain ! i) \<Longrightarrow> first_node P (chain[i := x]) = first_node P chain"
proof (induction chain arbitrary: i)
  case Nil
  then show ?case by simp
next
  case (Cons a chain)
  then show ?case by (cases i) simp_all
qed

lemma findNodeByPID_advance:
  "findNodeByPID ((advanceScheduler ^^ n) s) g_pid = findNodeByPID s g_pid"
  by (simp add: findNodeByPID_def advanceScheduler_iterated first_node_map
      pid_advance_node_iterated)

lemma pending_single_eq:
  "pending_single recurrence ac =
     \<lparr> next_pid = 2,
       schedule_root_node =
         [\<lparr> node_addr = 100, prof_data = NULL, pid = 1, thread_time_to_wait = 2,
            thread_period = 2, thread_recurs = recurrence, thread_enabled = True,
            thread_fire = True, autoclear = ac, schedule_callback = 7 \<rparr>],
       productive_loops = 0, total_loops = 0, overhead = 0, currently_executing = 0,
       prof_heap = (\<lambda>_. None) \<rparr>"
  by (simp add: pending_single_def single_eq advanceScheduler_def advance_node_def
      eval_nat_numeral)

lemma findNodeByPID_SomeD:
  assumes "findNodeByPID s g_pid = Some i"
  shows "i < length (schedule_root_node s)" and "pid (schedule_root_node s ! i) = g_pid"
  using first_node_SomeD [OF assms [unfolded findNodeByPID_def]] by simp_all

lemma profiled_single_reached:
  "beginProfiling (single (- 1) False) 200 1 = Inr profiled_single"
  by (simp add: beginProfiling_def beginProfiling_obj_def findNodeByPID_def single_eq
      profiled_single_def update_node_def)

lemma first_node_SomeI:
  "i < length xs \<Longrightarrow> P (xs ! i) \<Longrightarrow> (\<forall>j<i. \<not> P (xs ! j)) \<Longrightarrow> first_node P xs = Some i"
proof (induction xs arbitrary: i)
  case Nil
  then show ?case by simp
next
  case (Cons x xs)
  show ?case
  proof (cases i)
    case 0
    with Cons.prems show ?thesis by simp
  next
    case (Suc k)
    with Cons.prems have "\<not> P x" by auto
    moreover from Cons.prems Suc have "first_node P xs = Some k"
      by (intro Cons.IH) auto
    ultimately show ?thesis using Suc by simp
  qed
qed

lemma node_position_distinct:
  assumes "distinct (map node_addr (schedule_root_node s))"
    and "i < length (schedule_root_node s)"
  shows "node_position s (node_addr (schedule_root_node s ! i)) = Some i"
  unfolding node_position_def
proof (rule first_node_SomeI)
  show "i < length (schedule_root_node s)" by fact
  show "node_addr (schedule_root_node s ! i) = node_addr (schedule_root_node s ! i)" by simp
  show "\<forall>j<i. node_addr (schedule_root_node s ! j) \<noteq> node_addr (schedule_root_node s ! i)"
  proof (intro allI impI)
    fix j assume "j < i"
    with assms have "map node_addr (schedule_root_node s) ! j \<noteq> map node_addr (schedule_root_node s) ! i"
      by (simp add: nth_eq_iff_index_eq del: nth_map)
    with assms \<open>j < i\<close> show "node_addr (schedule_root_node s ! j) \<noteq> node_addr (schedule_root_node s ! i)"
      by simp
  qed
qed

lemma node_position_cong:
  "schedule_root_node s' = schedule_root_node s \<Longrightarrow> node_position s' a = node_position s a"
  by (simp add: node_position_def)

lemma run_callback_inert:
  assumes i: "i < length (schedule_root_node s)"
    and inert: "call (schedule_callback (schedule_root_node s ! i))
                  (s\<lparr>currently_executing := pid (schedule_root_node s ! i)\<rparr>)
                = s\<lparr>currently_executing := pid (schedule_root_node s ! i)\<rparr>"
    and wf: "distinct (map node_addr (schedule_root_node s))"
    and alloc: "profile_allocated s i"
  shows "run_callback call clk s i =
           Inr (s\<lparr>currently_executing := 0, prof_heap := sample_profile clk s i\<rparr>, i)"
proof -
  have pos: "node_position (s\<lparr>currently_executing := 0\<rparr>) (node_addr (schedule_root_node s ! i)) = Some i"
    using node_position_distinct [OF wf i] by (simp add: node_position_def)
  show ?thesis
  proof (cases "prof_data (schedule_root_node s ! i) = NULL")
    case True
    then show ?thesis
      by (simp add: run_callback_def Let_def inert pos scheduleBeingProfiled_obj_def
          sample_profile_def)
  next
    case False
    with alloc obtain r where r: "prof_heap s (prof_data (schedule_root_node s ! i)) = Some r"
      by (auto simp: profile_allocated_def)
    with False show ?thesis
      by (simp add: run_callback_def Let_def inert pos scheduleBeingProfiled_obj_def
          sample_profile_def)
  qed
qed

lemma apply_recurrence_nodes:
  assumes i: "i < length (schedule_root_node s)"
    and alloc: "profile_allocated s i"
  shows "\<exists>s'. apply_recurrence s i = Inr s' \<and>
     schedule_root_node s' =
       (if thread_recurs (schedule_root_node s ! i) = - 1
        then (schedule_root_node s)[i := (schedule_root_node s ! i)\<lparr>thread_fire := False\<rparr>]
        else if thread_recurs (schedule_root_node s ! i) = 0 then
          (if autoclear (schedule_root_node s ! i)
           then take i (schedule_root_node s) @ drop (Suc i) (schedule_root_node s)
           else (schedule_root_node s)[i := (schedule_root_node s ! i)
                  \<lparr>thread_enabled := False, thread_fire := False,
                   thread_time_to_wait := thread_period (schedule_root_node s ! i)\<rparr>])
        else (schedule_root_node s)[i := (schedule_root_node s ! i)
               \<lparr>thread_fire := False,
                thread_recurs := thread_recurs (schedule_root_node s ! i) - 1\<rparr>])"
proof -
  define s1 where "s1 = update_node i (\<lambda>t. t\<lparr>thread_fire := False\<rparr>) s"
  have alloc1: "profile_allocated s1 i"
    using alloc i by (simp add: profile_allocated_def s1_def update_node_def)
  have n1: "schedule_root_node s1 =
      (schedule_root_node s)[i := (schedule_root_node s ! i)\<lparr>thread_fire := False\<rparr>]"
    by (simp add: s1_def update_node_def)
  have unlink: "unlink_node i (schedule_root_node s1) =
      take i (schedule_root_node s) @ drop (Suc i) (schedule_root_node s)"
    by (simp add: unlink_node_def n1)
  show ?thesis
    unfolding apply_recurrence_def Let_def s1_def [symmetric]
    using i by (simp add: destroyScheduleItem_allocated [OF alloc1] unlink)
      (simp add: n1 update_node_def)
qed

lemma sample_profile_allocated:
  "profile_allocated s i \<Longrightarrow>
   profile_allocated (s\<lparr>currently_executing := c, prof_heap := sample_profile clk s i\<rparr>) i"
  by (auto simp: profile_allocated_def sample_profile_def Let_def split: option.splits)

lemma service_node_nodes:
  assumes i: "i < length (schedule_root_node s)"
    and inert: "call (schedule_callback (schedule_root_node s ! i))
                  (s\<lparr>currently_executing := pid (schedule_root_node s ! i)\<rparr>)
                = s\<lparr>currently_executing := pid (schedule_root_node s ! i)\<rparr>"
    and wf: "distinct (map node_addr (schedule_root_node s))"
    and alloc: "profile_allocated s i"
  shows "\<exists>s'. service_node call clk s i = Inr s' \<and>
     schedule_root_node s' =
       (if thread_recurs (schedule_root_node s ! i) = - 1
        then (schedule_root_node s)[i := (schedule_root_node s ! i)\<lparr>thread_fire := False\<rparr>]
        else if thread_recurs (schedule_root_node s ! i) = 0 then
          (if autoclear (schedule_root_node s ! i)
           then take i (schedule_root_node s) @ drop (Suc i) (schedule_root_node s)
           else (schedule_root_node s)[i := (schedule_root_node s ! i)
                  \<lparr>thread_enabled := False, thread_fire := False,
                   thread_time_to_wait := thread_period (schedule_root_node s ! i)\<rparr>])
        else (schedule_root_node s)[i := (schedule_root_node s ! i)
               \<lparr>thread_fire := False,
                thread_recurs := thread_recurs (schedule_root_node s ! i) - 1\<rparr>])"
proof -
  define sa where "sa = (if schedule_callback (schedule_root_node s ! i) \<noteq> NULL
      then s\<lparr>currently_executing := 0, prof_heap := sample_profile clk s i\<rparr> else s)"
  have before: "(if schedule_callback (schedule_root_node s ! i) \<noteq> NULL
            then run_callback call clk s i else Inr (s, i)) = Inr (sa, i)"
    by (simp add: sa_def run_callback_inert [where call = call, OF i inert wf alloc])
  have nodes: "schedule_root_node sa = schedule_root_node s"
    by (simp add: sa_def)
  have "profile_allocated sa i"
    using alloc sample_profile_allocated [OF alloc, where c = 0 and clk = clk] by (simp add: sa_def)
  from apply_recurrence_nodes [OF _ this] i nodes
  obtain s' where s': "apply_recurrence sa i = Inr s'"
    and n': "schedule_root_node s' =
       (if thread_recurs (schedule_root_node s ! i) = - 1
        then (schedule_root_node s)[i := (schedule_root_node s ! i)\<lparr>thread_fire := False\<rparr>]
        else if thread_recurs (schedule_root_node s ! i) = 0 then
          (if autoclear (schedule_root_node s ! i)
           then take i (schedule_root_node s) @ drop (Suc i) (schedule_root_node s)
           else (schedule_root_node s)[i := (schedule_root_node s ! i)
                  \<lparr>thread_enabled := False, thread_fire := False,
                   thread_time_to_wait := thread_period (schedule_root_node s ! i)\<rparr>])
        else (schedule_root_node s)[i := (schedule_root_node s ! i)
               \<lparr>thread_fire := False,
                thread_recurs := thread_recurs (schedule_root_node s ! i) - 1\<rparr>])"
    by auto
  have "service_node call clk s i = Inr (s'\<lparr>productive_loops := productive_loops s' + 1\<rparr>)"
    unfolding service_node_def before by (simp add: s')
  with n' show ?thesis by simp
qed

lemma serviceScheduledEvents_nodes:
  assumes due: "first_node thread_fire (schedule_root_node s) = Some i"
    and inert: "call (schedule_callback (schedule_root_node s ! i))
                  (s\<lparr>currently_executing := pid (schedule_root_node s ! i)\<rparr>)
                = s\<lparr>currently_executing := pid (schedule_root_node s ! i)\<rparr>"
    and wf: "distinct (map node_addr (schedule_root_node s))"
    and alloc: "profile_allocated s i"
  shows "\<exists>s'. serviceScheduledEvents call clk s = Inr s' \<and>
     schedule_root_node s' =
       (if thread_recurs (schedule_root_node s ! i) = - 1
        then (schedule_root_node s)[i := (schedule_root_node s ! i)\<lparr>thread_fire := False\<rparr>]
        else if thread_recurs (schedule_root_node s ! i) = 0 then
          (if autoclear (schedule_root_node s ! i)
           then take i (schedule_root_node s) @ drop (Suc i) (schedule_root_node s)
           else (schedule_root_node s)[i := (schedule_root_node s ! i)
                  \<lparr>thread_enabled := False, thread_fire := False,
                   thread_time_to_wait := thread_period (schedule_root_node s ! i)\<rparr>])
        else (schedule_root_node s)[i := (schedule_root_node s ! i)
               \<lparr>thread_fire := False,
                thread_recurs := thread_recurs (schedule_root_node s ! i) - 1\<rparr>])"
proof -
  from first_node_SomeD [OF due] have i: "i < length (schedule_root_node s)" by simp
  from service_node_nodes [where call = call and clk = clk, OF i inert wf alloc]
  obtain s' where "service_node call clk s i = Inr s'"
    and "schedule_root_node s' =
       (if thread_recurs (schedule_root_node s ! i) = - 1
        then (schedule_root_node s)[i := (schedule_root_node s ! i)\<lparr>thread_fire := False\<rparr>]
        else if thread_recurs (schedule_root_node s ! i) = 0 then
          (if autoclear (schedule_root_node s ! i)
           then take i (schedule_root_node s) @ drop (Suc i) (schedule_root_node s)
           else (schedule_root_node s)[i := (schedule_root_node s ! i)
                  \<lparr>thread_enabled := False, thread_fire := False,
                   thread_time_to_wait := thread_period (schedule_root_node s ! i)\<rparr>])
        else (schedule_root_node s)[i := (schedule_root_node s ! i)
               \<lparr>thread_fire := False,
                thread_recurs := thread_recurs (schedule_root_node s ! i) - 1\<rparr>])"
    by auto
  then show ?thesis
    by (simp add: serviceScheduledEvents_def due)
qed

lemma pending_double_eq:
  "pending_double recurrence ac =
     \<lparr> next_pid = 3,
       schedule_root_node =
         [\<lparr> node_addr = 100, prof_data = NULL, pid = 1, thread_time_to_wait = 2,
            thread_period = 2, thread_recurs = recurrence, thread_enabled = True,
            thread_fire = True, autoclear = ac, schedule_callback = 7 \<rparr>,
          \<lparr> node_addr = 101, prof_data = NULL, pid = 2, thread_time_to_wait = 2,
            thread_period = 2, thread_recurs = - 1, thread_enabled = True,
            thread_fire = True, autoclear = False, schedule_callback = 8 \<rparr>],
       productive_loops = 0, total_loops = 0, overhead = 0, currently_executing = 0,
       prof_heap = (\<lambda>_. None) \<rparr>"
  by (simp add: pending_double_def single_eq createSchedule_def get_valid_new_pid_eq
      insertScheduleItemAtEnd_def advanceScheduler_def advance_node_def eval_nat_numeral)

lemma nth_unlink:
  assumes "i < length xs" and "Suc j < length xs"
  shows "(take i xs @ drop (Suc i) xs) ! j = (if j < i then xs ! j else xs ! Suc j)"
  using assms by (auto simp: nth_append min_def)

lemma serviceScheduledEvents_call_cong:
  assumes "\<And>i. first_node thread_fire (schedule_root_node s) = Some i \<Longrightarrow>
             call' (schedule_callback (schedule_root_node s ! i))
               = call (schedule_callback (schedule_root_node s ! i))"
  shows "serviceScheduledEvents call' clk s = serviceScheduledEvents call clk s"
proof (cases "first_node thread_fire (schedule_root_node s)")
  case None
  then show ?thesis by (simp add: serviceScheduledEvents_def)
next
  case (Some i)
  note same = assms [OF Some]
  have "run_callback call' clk s i = run_callback call clk s i"
    unfolding run_callback_def Let_def by (simp only: same)
  then have "service_node call' clk s i = service_node call clk s i"
    unfolding service_node_def by (simp only:)
  then show ?thesis
    by (simp add: serviceScheduledEvents_def Some)
qed

lemma reset_invariant_update_node:
  assumes "reset_invariant s"
    and "i < length (schedule_root_node s) \<Longrightarrow> node_reset (f (schedule_root_node s ! i))"
  shows "reset_invariant (update_node i f s)"
proof (cases "i < length (schedule_root_node s)")
  case True
  have "set ((schedule_root_node s)[i := f (schedule_root_node s ! i)])
          \<subseteq> insert (f (schedule_root_node s ! i)) (set (schedule_root_node s))"
    by (rule set_update_subset_insert)
  with assms True show ?thesis
    by (auto simp: reset_invariant_def update_node_def)
next
  case False
  then have "(schedule_root_node s)[i := f (schedule_root_node s ! i)] = schedule_root_node s"
    by (simp add: list_update_beyond)
  with assms(1) show ?thesis
    by (simp add: reset_invariant_def update_node_def)
qed

lemma reset_invariant_nth:
  "reset_invariant s \<Longrightarrow> i < length (schedule_root_node s) \<Longrightarrow> node_reset (schedule_root_node s ! i)"
  by (simp add: reset_invariant_def)

lemma reset_invariant_chain:
  "schedule_root_node s' = schedule_root_node s \<Longrightarrow> reset_invariant s' = reset_invariant s"
  by (simp add: reset_invariant_def)

lemma reset_invariant_unlink:
  assumes "reset_invariant s"
    and "schedule_root_node s' = unlink_node i (schedule_root_node s)"
  shows "reset_invariant s'"
proof -
  have "set (unlink_node i (schedule_root_node s)) \<subseteq> set (schedule_root_node s)"
    using set_take_subset [of i "schedule_root_node s"]
      set_drop_subset [of "Suc i" "schedule_root_node s"]
    by (auto simp: unlink_node_def)
  with assms show ?thesis
    by (auto simp: reset_invariant_def)
qed

lemma node_reset_advance: "node_reset t \<Longrightarrow> node_reset (advance_node t)"
  by (simp add: node_reset_def advance_node_def)

lemma reset_invariant_advance: "reset_invariant s \<Longrightarrow> reset_invariant (advanceScheduler s)"
  by (auto simp: reset_invariant_def advanceScheduler_def advanceScheduler_loop_map
      node_reset_advance)

lemma reset_invariant_create:
  "reset_invariant s \<Longrightarrow>
   reset_invariant (snd (createSchedule s nu_sched sch_period recurrence ac sch_callback))"
  by (auto simp: createSchedule_def get_valid_new_pid_eq insertScheduleItemAtEnd_def
      reset_invariant_def node_reset_def)

lemma reset_invariant_alter:
  "reset_invariant s \<Longrightarrow>
   reset_invariant (snd (alterSchedule s g_pid sch_period recurrence ac sch_callback))"
  by (cases "findNodeByPID s g_pid")
     (auto simp: alterSchedule_def alterSchedule_obj_def node_reset_def
       intro!: reset_invariant_update_node)

lemma reset_invariant_alter_autoclear:
  "reset_invariant s \<Longrightarrow> reset_invariant (snd (alterSchedule_autoclear s g_pid ac))"
  by (cases "findNodeByPID s g_pid")
     (auto simp: alterSchedule_autoclear_def node_reset_def
       dest: reset_invariant_nth intro!: reset_invariant_update_node)

lemma reset_invariant_alter_callback:
  "reset_invariant s \<Longrightarrow> reset_invariant (snd (alterSchedule_callback s g_pid sch_callback))"
  by (cases "findNodeByPID s g_pid")
     (auto simp: alterSchedule_callback_def node_reset_def
       dest: reset_invariant_nth intro!: reset_invariant_update_node)

lemma reset_invariant_alter_period:
  "reset_invariant s \<Longrightarrow> reset_invariant (snd (alterSchedulePeriod s g_pid sch_period))"
  by (cases "findNodeByPID s g_pid")
     (auto simp: alterSchedulePeriod_def node_reset_def intro!: reset_invariant_update_node)

lemma reset_invariant_alter_recurrence:
  "reset_invariant s \<Longrightarrow> reset_invariant (snd (alterScheduleRecurrence s g_pid recurrence))"
  by (cases "findNodeByPID s g_pid")
     (auto simp: alterScheduleRecurrence_def node_reset_def
       dest: reset_invariant_nth intro!: reset_invariant_update_node)

lemma reset_invariant_enable:
  "reset_invariant s \<Longrightarrow> reset_invariant (snd (enableSchedule s g_pid))"
  by (cases "findNodeByPID s g_pid")
     (auto simp: enableSchedule_def node_reset_def intro!: reset_invariant_update_node)

lemma reset_invariant_disable:
  "reset_invariant s \<Longrightarrow> reset_invariant (snd (disableSchedule s g_pid))"
  by (cases "findNodeByPID s g_pid")
     (auto simp: disableSchedule_def node_reset_def intro!: reset_invariant_update_node)

lemma reset_invariant_delay:
  "reset_invariant s \<Longrightarrow> reset_invariant (snd (delaySchedule s g_pid by_ms))"
  by (cases "findNodeByPID s g_pid")
     (auto simp: delaySchedule_def delaySchedule_obj_def node_reset_def
       intro!: reset_invariant_update_node)

lemma reset_invariant_delay_period:
  "reset_invariant s \<Longrightarrow> reset_invariant (snd (delaySchedule_period s g_pid))"
  by (cases "findNodeByPID s g_pid")
     (auto simp: delaySchedule_period_def delaySchedule_obj_def node_reset_def
       intro!: reset_invariant_update_node)

lemma reset_invariant_destroy:
  assumes "reset_invariant s" and "destroyScheduleItem s r_node = Inr s'"
  shows "reset_invariant s'"
proof (cases r_node)
  case None
  with assms show ?thesis by (simp add: destroyScheduleItem_def)
next
  case (Some i)
  with assms(2) obtain s1 where s1: "clearProfilingData_obj s (Some i) = Inr s1"
    and s': "s' = s1\<lparr>schedule_root_node := unlink_node i (schedule_root_node s1)\<rparr>"
    by (auto simp: destroyScheduleItem_def split: sum.splits)
  from s1 have "schedule_root_node s1 = schedule_root_node s"
    by (auto simp: clearProfilingData_obj_def Let_def split: if_splits option.splits)
  with s' have "schedule_root_node s' = unlink_node i (schedule_root_node s)"
    by simp
  with assms(1) show ?thesis by (rule reset_invariant_unlink)
qed

lemma reset_invariant_remove:
  assumes "reset_invariant s" and "removeSchedule s g_pid = Inr (return_value, s')"
  shows "reset_invariant s'"
proof (cases "findNodeByPID s g_pid")
  case None
  with assms show ?thesis by (simp add: removeSchedule_def)
next
  case (Some i)
  show ?thesis
  proof (cases "pid (schedule_root_node s ! i) \<noteq> currently_executing s")
    case True
    with assms(2) Some have "destroyScheduleItem s (Some i) = Inr s'"
      by (auto simp: removeSchedule_def split: sum.splits)
    with assms(1) show ?thesis by (rule reset_invariant_destroy)
  next
    case False
    with assms(2) Some
    have "s' = update_node i (\<lambda>t. t\<lparr>autoclear := True, thread_recurs := 0\<rparr>) s"
      by (simp add: removeSchedule_def)
    with assms(1) show ?thesis
      by (auto simp: node_reset_def dest: reset_invariant_nth intro!: reset_invariant_update_node)
  qed
qed

lemma reset_invariant_run_callback:
  assumes inv: "reset_invariant s"
    and callbacks: "\<forall>f st. reset_invariant st \<longrightarrow> reset_invariant (call f st)"
    and run: "run_callback call clk s i = Inr (s', j)"
  shows "reset_invariant s'"
proof -
  define s3 where "s3 = (call (schedule_callback (schedule_root_node s ! i))
      (s\<lparr>currently_executing := pid (schedule_root_node s ! i)\<rparr>))\<lparr>currently_executing := 0\<rparr>"
  have "reset_invariant (s\<lparr>currently_executing := pid (schedule_root_node s ! i)\<rparr>)"
    using inv by (simp add: reset_invariant_def)
  with callbacks have "reset_invariant (call (schedule_callback (schedule_root_node s ! i))
      (s\<lparr>currently_executing := pid (schedule_root_node s ! i)\<rparr>))"
    by blast
  then have inv3: "reset_invariant s3"
    by (simp add: s3_def reset_invariant_def)
  from run have "schedule_root_node s' = schedule_root_node s3"
    unfolding run_callback_def Let_def s3_def [symmetric]
    by (auto split: sum.splits option.splits if_splits)
  with inv3 show ?thesis
    by (simp add: reset_invariant_def)
qed

lemma reset_invariant_apply_recurrence:
  assumes inv: "reset_invariant s" and run: "apply_recurrence s j = Inr s'"
  shows "reset_invariant s'"
proof -
  define s1 where "s1 = update_node j (\<lambda>t. t\<lparr>thread_fire := False\<rparr>) s"
  have inv1: "reset_invariant s1"
    unfolding s1_def using inv
    by (auto simp: node_reset_def dest: reset_invariant_nth intro!: reset_invariant_update_node)
  have len: "length (schedule_root_node s1) = length (schedule_root_node s)"
    by (simp add: s1_def update_node_def)
  consider (forever) "thread_recurs (schedule_root_node s1 ! j) = - 1"
    | (reap) "thread_recurs (schedule_root_node s1 ! j) \<noteq> - 1"
        "thread_recurs (schedule_root_node s1 ! j) = 0" "autoclear (schedule_root_node s1 ! j)"
    | (stop) "thread_recurs (schedule_root_node s1 ! j) \<noteq> - 1"
        "thread_recurs (schedule_root_node s1 ! j) = 0" "\<not> autoclear (schedule_root_node s1 ! j)"
    | (count) "thread_recurs (schedule_root_node s1 ! j) \<noteq> - 1"
        "thread_recurs (schedule_root_node s1 ! j) \<noteq> 0"
    by blast
  then show ?thesis
  proof cases
    case forever
    with run have "s' = s1"
      by (simp add: apply_recurrence_def Let_def s1_def)
    with inv1 show ?thesis by simp
  next
    case reap
    with run have "destroyScheduleItem s1 (Some j) = Inr s'"
      by (simp add: apply_recurrence_def Let_def s1_def)
    with inv1 show ?thesis by (rule reset_invariant_destroy)
  next
    case stop
    with run have "s' = update_node j (\<lambda>t. t\<lparr> thread_enabled := False, thread_fire := False,
                        thread_time_to_wait := thread_period t \<rparr>) s1"
      by (simp add: apply_recurrence_def Let_def s1_def)
    with inv1 show ?thesis
      by (auto simp: node_reset_def intro!: reset_invariant_update_node)
  next
    case count
    with run have "s' = update_node j (\<lambda>t. t\<lparr>thread_recurs := thread_recurs t - 1\<rparr>) s1"
      by (simp add: apply_recurrence_def Let_def s1_def)
    with inv1 show ?thesis
      by (auto simp: node_reset_def dest: reset_invariant_nth intro!: reset_invariant_update_node)
  qed
qed

lemma reset_invariant_service_node:
  assumes inv: "reset_invariant s"
    and callbacks: "\<forall>f st. reset_invariant st \<longrightarrow> reset_invariant (call f st)"
    and run: "service_node call clk s i = Inr s'"
  shows "reset_invariant s'"
proof -
  from run obtain sa j s'' where before:
      "(if schedule_callback (schedule_root_node s ! i) \<noteq> NULL
        then run_callback call clk s i else Inr (s, i)) = Inr (sa, j)"
    and policy: "apply_recurrence sa j = Inr s''"
    and s': "s' = s''\<lparr>productive_loops := productive_loops s'' + 1\<rparr>"
    unfolding service_node_def by (auto split: sum.splits prod.splits)
  have "reset_invariant sa"
  proof (cases "schedule_callback (schedule_root_node s ! i) \<noteq> NULL")
    case True
    with before have "run_callback call clk s i = Inr (sa, j)" by simp
    with inv callbacks show ?thesis by (rule reset_invariant_run_callback)
  next
    case False
    with before inv show ?thesis by simp
  qed
  from this policy have "reset_invariant s''" by (rule reset_invariant_apply_recurrence)
  with s' show ?thesis by (simp add: reset_invariant_def)
qed

lemma reset_invariant_service:
  assumes inv: "reset_invariant s"
    and callbacks: "\<forall>f st. reset_invariant st \<longrightarrow> reset_invariant (call f st)"
    and run: "serviceScheduledEvents call clk s = Inr s'"
  shows "reset_invariant s'"
proof -
  from run obtain s1 where s1: "(case first_node thread_fire (schedule_root_node s) of
              None \<Rightarrow> Inr s
            | Some i \<Rightarrow> service_node call clk s i) = Inr s1"
    and s': "s' = s1\<lparr> overhead := finish_time clk - origin_time clk,
                  total_loops := total_loops s1 + 1 \<rparr>"
    unfolding serviceScheduledEvents_def by (auto split: sum.splits)
  have "reset_invariant s1"
  proof (cases "first_node thread_fire (schedule_root_node s)")
    case None
    with s1 inv show ?thesis by simp
  next
    case (Some i)
    with s1 have "service_node call clk s i = Inr s1" by simp
    with inv callbacks show ?thesis by (rule reset_invariant_service_node)
  qed
  with s' show ?thesis by (simp add: reset_invariant_def)
qed

lemma node_position_SomeD:
  assumes "node_position s a = Some j"
  shows "j < length (schedule_root_node s)" and "node_addr (schedule_root_node s ! j) = a"
  using first_node_SomeD [OF assms [unfolded node_position_def]] by simp_all

lemma sample_profile_executing [simp]:
  "sample_profile clk (s\<lparr>currently_executing := c\<rparr>) j = sample_profile clk s j"
  by (simp add: sample_profile_def Let_def split: option.splits)

lemma run_callback_returns:
  assumes s2: "s2 = call (schedule_callback (schedule_root_node s ! i))
                      (s\<lparr>currently_executing := pid (schedule_root_node s ! i)\<rparr>)"
    and still: "node_position s2 (node_addr (schedule_root_node s ! i)) = Some j"
    and alloc: "profile_allocated s i" "profile_allocated s2 j"
  shows "run_callback call clk s i =
           Inr (s2\<lparr>currently_executing := 0, prof_heap := sample_profile clk s2 j\<rparr>, j)"
proof -
  define s3 where "s3 = s2\<lparr>currently_executing := 0\<rparr>"
  have pos: "node_position s3 (node_addr (schedule_root_node s ! i)) = Some j"
    using still by (simp add: node_position_def s3_def)
  have "\<exists>b. scheduleBeingProfiled_obj s (Some i) = Inr b"
    using alloc(1)
    by (cases "prof_data (schedule_root_node s ! i) = NULL")
       (auto simp: scheduleBeingProfiled_obj_def profile_allocated_def Let_def)
  then obtain b where before: "scheduleBeingProfiled_obj s (Some i) = Inr b" ..
  have after: "(case scheduleBeingProfiled_obj s3 (Some j) of
        Inl e \<Rightarrow> Inl e
      | Inr profiled \<Rightarrow>
          if profiled then
            (let p = prof_data (schedule_root_node s3 ! j) in
             case prof_heap s3 p of
               None \<Rightarrow> Inl UseAfterFree
             | Some r \<Rightarrow> Inr (s3\<lparr>prof_heap := (prof_heap s3)(p \<mapsto> record_sample clk r)\<rparr>, j))
          else Inr (s3, j))
     = Inr (s3\<lparr>prof_heap := sample_profile clk s3 j\<rparr>, j)"
  proof (cases "prof_data (schedule_root_node s3 ! j) = NULL")
    case True
    then show ?thesis
      by (simp add: scheduleBeingProfiled_obj_def sample_profile_def)
  next
    case False
    with alloc(2) obtain r where "prof_heap s3 (prof_data (schedule_root_node s3 ! j)) = Some r"
      by (auto simp: profile_allocated_def s3_def)
    with False show ?thesis
      by (simp add: scheduleBeingProfiled_obj_def sample_profile_def Let_def)
  qed
  show ?thesis
    unfolding run_callback_def Let_def s2 [symmetric] s3_def [symmetric] before
    by (simp add: pos after [unfolded Let_def]) (simp add: s3_def)
qed

lemma service_node_returns:
  assumes callback: "schedule_callback (schedule_root_node s ! i) \<noteq> NULL"
    and s2: "s2 = call (schedule_callback (schedule_root_node s ! i))
                      (s\<lparr>currently_executing := pid (schedule_root_node s ! i)\<rparr>)"
    and still: "node_position s2 (node_addr (schedule_root_node s ! i)) = Some j"
    and alloc: "profile_allocated s i" "profile_allocated s2 j"
  shows "\<exists>s'. service_node call clk s i = Inr s' \<and>
     schedule_root_node s' =
       (if thread_recurs (schedule_root_node s2 ! j) = - 1
        then (schedule_root_node s2)[j := (schedule_root_node s2 ! j)\<lparr>thread_fire := False\<rparr>]
        else if thread_recurs (schedule_root_node s2 ! j) = 0 then
          (if autoclear (schedule_root_node s2 ! j)
           then take j (schedule_root_node s2) @ drop (Suc j) (schedule_root_node s2)
           else (schedule_root_node s2)[j := (schedule_root_node s2 ! j)
                  \<lparr>thread_enabled := False, thread_fire := False,
                   thread_time_to_wait := thread_period (schedule_root_node s2 ! j)\<rparr>])
        else (schedule_root_node s2)[j := (schedule_root_node s2 ! j)
               \<lparr>thread_fire := False,
                thread_recurs := thread_recurs (schedule_root_node s2 ! j) - 1\<rparr>])"
proof -
  define sa where "sa = s2\<lparr>currently_executing := 0, prof_heap := sample_profile clk s2 j\<rparr>"
  have before: "run_callback call clk s i = Inr (sa, j)"
    unfolding sa_def using s2 still alloc by (rule run_callback_returns [where call = call])
  have nodes: "schedule_root_node sa = schedule_root_node s2"
    by (simp add: sa_def)
  have j: "j < length (schedule_root_node sa)"
    using node_position_SomeD(1) [OF still] by (simp add: nodes)
  have "profile_allocated sa j"
    unfolding sa_def using alloc(2) by (rule sample_profile_allocated)
  from apply_recurrence_nodes [OF j this]
  obtain s' where s': "apply_recurrence sa j = Inr s'"
    and n': "schedule_root_node s' =
       (if thread_recurs (schedule_root_node s2 ! j) = - 1
        then (schedule_root_node s2)[j := (schedule_root_node s2 ! j)\<lparr>thread_fire := False\<rparr>]
        else if thread_recurs (schedule_root_node s2 ! j) = 0 then
          (if autoclear (schedule_root_node s2 ! j)
           then take j (schedule_root_node s2) @ drop (Suc j) (schedule_root_node s2)
           else (schedule_root_node s2)[j := (schedule_root_node s2 ! j)
                  \<lparr>thread_enabled := False, thread_fire := False,
                   thread_time_to_wait := thread_period (schedule_root_node s2 ! j)\<rparr>])
        else (schedule_root_node s2)[j := (schedule_root_node s2 ! j)
               \<lparr>thread_fire := False,
                thread_recurs := thread_recurs (schedule_root_node s2 ! j) - 1\<rparr>])"
    unfolding nodes by blast
  have "service_node call clk s i = Inr (s'\<lparr>productive_loops := productive_loops s' + 1\<rparr>)"
    unfolding service_node_def using callback by (simp add: before s')
  with n' show ?thesis by simp
qed

lemma clearProfilingData_obj_fields:
  assumes "clearProfilingData_obj s obj = Inr s'"
  shows "next_pid s' = next_pid s \<and> productive_loops s' = productive_loops s
       \<and> total_loops s' = total_loops s \<and> currently_executing s' = currently_executing s
       \<and> schedule_root_node s' = schedule_root_node s"
  using assms
  by (auto simp: clearProfilingData_obj_def Let_def split: option.splits if_splits)

lemma destroyScheduleItem_fields:
  assumes "destroyScheduleItem s r_node = Inr s'"
  shows "next_pid s' = next_pid s \<and> productive_loops s' = productive_loops s
       \<and> total_loops s' = total_loops s \<and> currently_executing s' = currently_executing s"
proof (cases r_node)
  case None
  with assms show ?thesis by (simp add: destroyScheduleItem_def)
next
  case (Some i)
  with assms obtain s1 where s1: "clearProfilingData_obj s (Some i) = Inr s1"
    and s': "s' = s1\<lparr>schedule_root_node := unlink_node i (schedule_root_node s1)\<rparr>"
    by (auto simp: destroyScheduleItem_def split: sum.splits)
  from clearProfilingData_obj_fields [OF s1]
  have "next_pid s1 = next_pid s \<and> productive_loops s1 = productive_loops s
       \<and> total_loops s1 = total_loops s \<and> currently_executing s1 = currently_executing s"
    by simp
  with s' show ?thesis by simp
qed

lemma apply_recurrence_fields:
  assumes "apply_recurrence s j = Inr s'"
  shows "next_pid s' = next_pid s \<and> productive_loops s' = productive_loops s
       \<and> total_loops s' = total_loops s \<and> currently_executing s' = currently_executing s"
proof -
  define s1 where "s1 = update_node j (\<lambda>t. t\<lparr>thread_fire := False\<rparr>) s"
  have same: "next_pid s1 = next_pid s \<and> productive_loops s1 = productive_loops s
       \<and> total_loops s1 = total_loops s \<and> currently_executing s1 = currently_executing s"
    by (simp add: s1_def update_node_def)
  show ?thesis
  proof (cases "thread_recurs (schedule_root_node s1 ! j) = 0
      \<and> autoclear (schedule_root_node s1 ! j)")
    case True
    with assms have "destroyScheduleItem s1 (Some j) = Inr s'"
      by (simp add: apply_recurrence_def Let_def s1_def)
    from destroyScheduleItem_fields [OF this] same show ?thesis by simp
  next
    case False
    with assms same show ?thesis
      unfolding apply_recurrence_def Let_def s1_def [symmetric]
      by (auto simp: update_node_def split: if_splits)
  qed
qed

lemma serviceScheduledEvents_after_callback:
  assumes due: "first_node thread_fire (schedule_root_node s) = Some i"
    and callback: "schedule_callback (schedule_root_node s ! i) \<noteq> NULL"
    and s2: "s2 = call (schedule_callback (schedule_root_node s ! i))
                      (s\<lparr>currently_executing := pid (schedule_root_node s ! i)\<rparr>)"
    and still: "node_position s2 (node_addr (schedule_root_node s ! i)) = Some j"
    and alloc: "profile_allocated s i" "profile_allocated s2 j"
  shows "\<exists>s'. serviceScheduledEvents call clk s = Inr s'
     \<and> next_pid s' = next_pid s2
     \<and> productive_loops s' = productive_loops s2 + 1
     \<and> total_loops s' = total_loops s2 + 1
     \<and> currently_executing s' = 0
     \<and> schedule_root_node s' =
       (if thread_recurs (schedule_root_node s2 ! j) = 0 \<and> autoclear (schedule_root_node s2 ! j)
        then take j (schedule_root_node s2) @ drop (Suc j) (schedule_root_node s2)
        else (schedule_root_node s2)[j :=
          (if thread_recurs (schedule_root_node s2 ! j) = - 1
           then (schedule_root_node s2 ! j)\<lparr>thread_fire := False\<rparr>
           else if thread_recurs (schedule_root_node s2 ! j) = 0
           then (schedule_root_node s2 ! j)
                  \<lparr>thread_enabled := False, thread_fire := False,
                   thread_time_to_wait := thread_period (schedule_root_node s2 ! j)\<rparr>
           else (schedule_root_node s2 ! j)
               \<lparr>thread_fire := False,
                thread_recurs := thread_recurs (schedule_root_node s2 ! j) - 1\<rparr>)])"
proof -
  define sa where "sa = s2\<lparr>currently_executing := 0, prof_heap := sample_profile clk s2 j\<rparr>"
  have before: "run_callback call clk s i = Inr (sa, j)"
    unfolding sa_def using s2 still alloc by (rule run_callback_returns [where call = call])
  have nodes: "schedule_root_node sa = schedule_root_node s2"
    by (simp add: sa_def)
  have j: "j < length (schedule_root_node sa)"
    using node_position_SomeD(1) [OF still] by (simp add: nodes)
  have "profile_allocated sa j"
    unfolding sa_def using alloc(2) by (rule sample_profile_allocated)
  from apply_recurrence_nodes [OF j this]
  obtain s' where s': "apply_recurrence sa j = Inr s'"
    and n': "schedule_root_node s' =
       (if thread_recurs (schedule_root_node s2 ! j) = - 1
        then (schedule_root_node s2)[j := (schedule_root_node s2 ! j)\<lparr>thread_fire := False\<rparr>]
        else if thread_recurs (schedule_root_node s2 ! j) = 0 then
          (if autoclear (schedule_root_node s2 ! j)
           then take j (schedule_root_node s2) @ drop (Suc j) (schedule_root_node s2)
           else (schedule_root_node s2)[j := (schedule_root_node s2 ! j)
                  \<lparr>thread_enabled := False, thread_fire := False,
                   thread_time_to_wait := thread_period (schedule_root_node s2 ! j)\<rparr>])
        else (schedule_root_node s2)[j := (schedule_root_node s2 ! j)
               \<lparr>thread_fire := False,
                thread_recurs := thread_recurs (schedule_root_node s2 ! j) - 1\<rparr>])"
    unfolding nodes by blast
  from apply_recurrence_fields [OF s']
  have fields: "next_pid s' = next_pid s2" "productive_loops s' = productive_loops s2"
    "total_loops s' = total_loops s2" "currently_executing s' = 0"
    by (simp_all add: sa_def)
  have "service_node call clk s i = Inr (s'\<lparr>productive_loops := productive_loops s' + 1\<rparr>)"
    unfolding service_node_def using callback by (simp add: before s')
  then have "serviceScheduledEvents call clk s =
      Inr (s'\<lparr>productive_loops := productive_loops s' + 1,
              overhead := finish_time clk - origin_time clk,
              total_loops := total_loops s' + 1\<rparr>)"
    by (simp add: serviceScheduledEvents_def due)
  with fields n' show ?thesis
    by (intro exI [of _ "s'\<lparr>productive_loops := productive_loops s' + 1,
              overhead := finish_time clk - origin_time clk,
              total_loops := total_loops s' + 1\<rparr>"]) auto
qed

section \<open>The claims\<close>

subsection \<open>C1\<close>

text \<open>
  C1 (as amended). Let a PID resolve to a node with period \<open>P\<close>. After \<open>disableSchedule\<close>,
  any number \<open>k\<close> of ticks while the schedule is disabled, and \<open>enableSchedule\<close>, the
  pending flag of the node stays clear during the first \<open>P\<close> calls of \<open>advanceScheduler\<close>
  and is set by call number \<open>P + 1\<close>: the countdown runs from \<open>P\<close> down to 0 and the tick
  that finds 0 sets the flag.
\<close>

theorem disable_enable_next_fire:
  assumes "findNodeByPID s g_pid = Some i"
  shows "(\<forall>n \<le> unat (thread_period (schedule_root_node s ! i)).
            \<not> thread_fire (schedule_root_node ((advanceScheduler ^^ n)
                (snd (enableSchedule ((advanceScheduler ^^ k) (snd (disableSchedule s g_pid))) g_pid))) ! i))
       \<and> thread_fire (schedule_root_node
            ((advanceScheduler ^^ Suc (unat (thread_period (schedule_root_node s ! i))))
                (snd (enableSchedule ((advanceScheduler ^^ k) (snd (disableSchedule s g_pid))) g_pid))) ! i)"
proof -
  define t where "t = schedule_root_node s ! i"
  define sd where "sd = snd (disableSchedule s g_pid)"
  define sk where "sk = (advanceScheduler ^^ k) sd"
  define s1 where "s1 = snd (enableSchedule sk g_pid)"
  define t1 where "t1 = t\<lparr>thread_enabled := True, thread_fire := False,
                          thread_time_to_wait := thread_period t\<rparr>"
  from first_node_SomeD [OF assms [unfolded findNodeByPID_def]]
  have i: "i < length (schedule_root_node s)" by simp
  have sd: "schedule_root_node sd = (schedule_root_node s)
              [i := t\<lparr>thread_enabled := False, thread_fire := False,
                      thread_time_to_wait := thread_period t\<rparr>]"
    using assms by (simp add: sd_def disableSchedule_def update_node_def t_def)
  have find_sd: "findNodeByPID sd g_pid = Some i"
    using assms i by (simp add: findNodeByPID_def sd first_node_update t_def)
  have find_sk: "findNodeByPID sk g_pid = Some i"
    by (simp add: sk_def findNodeByPID_advance find_sd)
  have sk: "schedule_root_node sk ! i = t\<lparr>thread_enabled := False, thread_fire := False,
                      thread_time_to_wait := thread_period t\<rparr>"
    using i by (simp add: sk_def advanceScheduler_iterated sd advance_node_disabled)
  have len_sk: "length (schedule_root_node sk) = length (schedule_root_node s)"
    by (simp add: sk_def advanceScheduler_iterated sd)
  have s1: "schedule_root_node s1 ! i = t1" and len_s1: "i < length (schedule_root_node s1)"
    using i find_sk len_sk by (simp_all add: s1_def enableSchedule_def update_node_def sk t1_def)
  have node: "schedule_root_node ((advanceScheduler ^^ n) s1) ! i = (advance_node ^^ n) t1" for n
    using len_s1 by (simp add: advanceScheduler_iterated s1)
  have en: "thread_enabled t1" and ttw: "thread_time_to_wait t1 = thread_period t"
    and nf: "\<not> thread_fire t1"
    by (simp_all add: t1_def)
  have early: "\<not> thread_fire ((advance_node ^^ n) t1)" if "n \<le> unat (thread_period t)" for n
    using advance_node_countdown [OF en, of n] that nf by (simp add: ttw)
  have late: "thread_fire ((advance_node ^^ Suc (unat (thread_period t))) t1)"
    using advance_node_fires [OF en] by (simp add: ttw)
  from early late show ?thesis
    unfolding node [unfolded s1_def sk_def sd_def] t_def [symmetric] by blast
qed

theorem disable_enable_next_fire_witness:
  "findNodeByPID (single (- 1) False) 1 = Some 0
   \<and> thread_period (schedule_root_node (single (- 1) False) ! 0) = 2
   \<and> \<not> thread_fire (schedule_root_node ((advanceScheduler ^^ 0)
          (snd (enableSchedule ((advanceScheduler ^^ 1) (snd (disableSchedule (single (- 1) False) 1))) 1))) ! 0)
   \<and> \<not> thread_fire (schedule_root_node ((advanceScheduler ^^ 1)
          (snd (enableSchedule ((advanceScheduler ^^ 1) (snd (disableSchedule (single (- 1) False) 1))) 1))) ! 0)
   \<and> \<not> thread_fire (schedule_root_node ((advanceScheduler ^^ 2)
          (snd (enableSchedule ((advanceScheduler ^^ 1) (snd (disableSchedule (single (- 1) False) 1))) 1))) ! 0)
   \<and> thread_fire (schedule_root_node ((advanceScheduler ^^ 3)
          (snd (enableSchedule ((advanceScheduler ^^ 1) (snd (disableSchedule (single (- 1) False) 1))) 1))) ! 0)"
proof -
  define s1 where "s1 = snd (enableSchedule ((advanceScheduler ^^ 1)
      (snd (disableSchedule (single (- 1) False) 1))) 1)"
  have found: "findNodeByPID (single (- 1) False) 1 = Some 0"
    by (simp add: single_eq findNodeByPID_def)
  have period: "thread_period (schedule_root_node (single (- 1) False) ! 0) = 2"
    by (simp add: single_eq)
  have two: "unat (2 :: uint32_t) = 2"
    by simp
  note fact = disable_enable_next_fire [OF found, of 1, folded s1_def]
  from fact have early: "\<forall>n\<le>2. \<not> thread_fire (schedule_root_node ((advanceScheduler ^^ n) s1) ! 0)"
    unfolding period two by (rule conjunct1)
  from fact have late: "thread_fire (schedule_root_node ((advanceScheduler ^^ Suc 2) s1) ! 0)"
    unfolding period two by (rule conjunct2)
  have e0: "\<not> thread_fire (schedule_root_node ((advanceScheduler ^^ 0) s1) ! 0)"
    using early [rule_format, of 0] by (simp only: le0 not_False_eq_True)
  have e1: "\<not> thread_fire (schedule_root_node ((advanceScheduler ^^ 1) s1) ! 0)"
    using early [rule_format, of 1] by linarith
  have e2: "\<not> thread_fire (schedule_root_node ((advanceScheduler ^^ 2) s1) ! 0)"
    using early [rule_format, of 2] by linarith
  have l3: "thread_fire (schedule_root_node ((advanceScheduler ^^ 3) s1) ! 0)"
    using late by (simp only: eval_nat_numeral)
  from found period e0 e1 e2 l3 show ?thesis
    unfolding s1_def by (intro conjI)
qed

text \<open>
  C1 as stated says that the flag is set by call number \<open>P\<close>. For the schedule of
  \<open>single\<close>, of period 2, the flag is still clear after two calls and set after three.
\<close>

theorem fire_after_period_ticks_counterexample:
  "findNodeByPID (single (- 1) False) 1 = Some 0
   \<and> thread_period (schedule_root_node (single (- 1) False) ! 0) = 2
   \<and> \<not> thread_fire (schedule_root_node ((advanceScheduler ^^ 2)
          (snd (enableSchedule (snd (disableSchedule (single (- 1) False) 1)) 1))) ! 0)
   \<and> thread_fire (schedule_root_node ((advanceScheduler ^^ 3)
          (snd (enableSchedule (snd (disableSchedule (single (- 1) False) 1)) 1))) ! 0)"
  by (simp add: single_eq findNodeByPID_def disableSchedule_def enableSchedule_def
      update_node_def advanceScheduler_def advance_node_def eval_nat_numeral)

subsection \<open>C2\<close>

text \<open>
  C2 (as amended). \<open>advanceScheduler\<close> does not look at the pending flag. For an enabled
  node whose flag is already set, a further tick keeps counting: \<open>thread_time_to_wait\<close> is
  decremented when it is above 0 and reset to the period otherwise. The flag stays set
  and every other field of the node keeps its value; as the flag is one bit, a second
  expiry before the dispatch does not queue a second run.
\<close>

theorem advanceScheduler_pending_node:
  assumes "i < length (schedule_root_node s)"
    and "thread_enabled (schedule_root_node s ! i)"
    and "thread_fire (schedule_root_node s ! i)"
  shows "schedule_root_node (advanceScheduler s) ! i =
           (schedule_root_node s ! i)
             \<lparr>thread_time_to_wait :=
                (if 0 < thread_time_to_wait (schedule_root_node s ! i)
                 then thread_time_to_wait (schedule_root_node s ! i) - 1
                 else thread_period (schedule_root_node s ! i))\<rparr>"
  using assms
  by (simp add: advanceScheduler_def advanceScheduler_loop_map advance_node_def)

theorem advanceScheduler_pending_node_witness:
  "0 < length (schedule_root_node (pending_single (- 1) False))
   \<and> thread_enabled (schedule_root_node (pending_single (- 1) False) ! 0)
   \<and> thread_fire (schedule_root_node (pending_single (- 1) False) ! 0)
   \<and> schedule_root_node (advanceScheduler (pending_single (- 1) False)) ! 0 =
       (schedule_root_node (pending_single (- 1) False) ! 0)\<lparr>thread_time_to_wait := 1\<rparr>"
  using advanceScheduler_pending_node [of 0 "pending_single (- 1) False"]
  by (simp add: pending_single_eq)

text \<open>
  C2 as stated says that the tick leaves a pending node entirely unchanged. The pending
  schedule of \<open>pending_single (- 1) False\<close> waits 2 ticks before the call and 1 tick after it.
\<close>

theorem pending_node_untouched_counterexample:
  "thread_enabled (schedule_root_node (pending_single (- 1) False) ! 0)
   \<and> thread_fire (schedule_root_node (pending_single (- 1) False) ! 0)
   \<and> thread_time_to_wait (schedule_root_node (pending_single (- 1) False) ! 0) = 2
   \<and> thread_time_to_wait (schedule_root_node (advanceScheduler (pending_single (- 1) False)) ! 0) = 1
   \<and> schedule_root_node (advanceScheduler (pending_single (- 1) False)) ! 0
       \<noteq> schedule_root_node (pending_single (- 1) False) ! 0"
  by (simp add: pending_single_eq advanceScheduler_def advance_node_def)

subsection \<open>C3\<close>

text \<open>
  C3. \<open>createSchedule\<close> returns the sentinel PID 0 and leaves the whole state (chain and
  PID counter) as it was whenever the period is at most 1 or the callback is null (and
  also when the allocation fails). With a period above 1, a callback and a successful
  allocation it returns a PID that is not 0, and the new node is linked at the end of the
  chain: enabled, not pending, with \<open>thread_time_to_wait\<close> equal to the period.
\<close>

theorem createSchedule_spec:
  "(sch_period \<le> 1 \<or> sch_callback = NULL \<or> nu_sched = NULL \<longrightarrow>
      createSchedule s nu_sched sch_period recurrence ac sch_callback = (0, s))
   \<and> (1 < sch_period \<and> sch_callback \<noteq> NULL \<and> nu_sched \<noteq> NULL \<longrightarrow>
      (\<exists>new_pid. new_pid \<noteq> 0 \<and>
         createSchedule s nu_sched sch_period recurrence ac sch_callback =
           (new_pid,
            s\<lparr> next_pid := new_pid + 1,
               schedule_root_node := schedule_root_node s @
                 [\<lparr> node_addr = nu_sched, prof_data = NULL, pid = new_pid,
                    thread_time_to_wait = sch_period, thread_period = sch_period,
                    thread_recurs = recurrence, thread_enabled = True,
                    thread_fire = False, autoclear = ac,
                    schedule_callback = sch_callback \<rparr>] \<rparr>)))"
proof (intro conjI impI)
  assume "sch_period \<le> 1 \<or> sch_callback = NULL \<or> nu_sched = NULL"
  then show "createSchedule s nu_sched sch_period recurrence ac sch_callback = (0, s)"
    by (auto simp: createSchedule_def not_less [symmetric])
next
  assume ok: "1 < sch_period \<and> sch_callback \<noteq> NULL \<and> nu_sched \<noteq> NULL"
  show "\<exists>new_pid. new_pid \<noteq> 0 \<and>
         createSchedule s nu_sched sch_period recurrence ac sch_callback =
           (new_pid,
            s\<lparr> next_pid := new_pid + 1,
               schedule_root_node := schedule_root_node s @
                 [\<lparr> node_addr = nu_sched, prof_data = NULL, pid = new_pid,
                    thread_time_to_wait = sch_period, thread_period = sch_period,
                    thread_recurs = recurrence, thread_enabled = True,
                    thread_fire = False, autoclear = ac,
                    schedule_callback = sch_callback \<rparr>] \<rparr>)"
  proof (cases "next_pid s = 0")
    case True
    with ok show ?thesis
      by (intro exI [of _ 1])
         (simp add: createSchedule_def get_valid_new_pid_eq insertScheduleItemAtEnd_def)
  next
    case False
    with ok show ?thesis
      by (intro exI [of _ "next_pid s"])
         (simp add: createSchedule_def get_valid_new_pid_eq insertScheduleItemAtEnd_def)
  qed
qed

theorem createSchedule_spec_witness:
  "createSchedule new_Scheduler 100 1 3 True 7 = (0, new_Scheduler)
   \<and> createSchedule new_Scheduler 100 2 3 True NULL = (0, new_Scheduler)
   \<and> createSchedule new_Scheduler NULL 2 3 True 7 = (0, new_Scheduler)
   \<and> (\<exists>new_pid. new_pid \<noteq> 0 \<and>
        createSchedule new_Scheduler 100 2 3 True 7 =
          (new_pid,
           new_Scheduler\<lparr> next_pid := new_pid + 1,
             schedule_root_node := schedule_root_node new_Scheduler @
               [\<lparr> node_addr = 100, prof_data = NULL, pid = new_pid,
                  thread_time_to_wait = 2, thread_period = 2,
                  thread_recurs = 3, thread_enabled = True,
                  thread_fire = False, autoclear = True,
                  schedule_callback = 7 \<rparr>] \<rparr>))"
  using createSchedule_spec [of 1 7 100 new_Scheduler 3 True]
    createSchedule_spec [of 2 NULL 100 new_Scheduler 3 True]
    createSchedule_spec [of 2 7 NULL new_Scheduler 3 True]
    createSchedule_spec [of 2 7 100 new_Scheduler 3 True]
  by simp

subsection \<open>C4\<close>

text \<open>
  C4. Let the first pending node of the chain be at position \<open>i\<close> and have a callback.
  Let \<open>s2\<close> be the state in which the callback returns, let the node still be in the
  chain then, at position \<open>j\<close>, and let its profile pointer be null or allocated. Then
  \<open>serviceScheduledEvents\<close> returns, and the chain afterwards is the chain of \<open>s2\<close> with
  the policy applied to that node and to no other: with \<open>thread_recurs\<close> -1 only the
  pending flag is cleared; with \<open>thread_recurs\<close> 0 the node is unlinked when \<open>autoclear\<close>
  is set, and otherwise disabled with the flag clear and \<open>thread_time_to_wait\<close> reset to
  the period; in every other case \<open>thread_recurs\<close> is decremented by one, the flag is
  cleared and \<open>thread_enabled\<close> is not written. For a callback that leaves the scheduler
  alone the chain of \<open>s2\<close> is the chain before the call. The policy reads the fields as
  the callback left them, which is how a schedule that calls \<open>removeSchedule\<close> on itself
  is reaped once its callback has returned.
\<close>

theorem serviceScheduledEvents_recurrence:
  assumes due: "first_node thread_fire (schedule_root_node s) = Some i"
    and callback: "schedule_callback (schedule_root_node s ! i) \<noteq> NULL"
    and s2: "s2 = call (schedule_callback (schedule_root_node s ! i))
                      (s\<lparr>currently_executing := pid (schedule_root_node s ! i)\<rparr>)"
    and still: "node_position s2 (node_addr (schedule_root_node s ! i)) = Some j"
    and alloc: "profile_allocated s i" "profile_allocated s2 j"
  shows "\<exists>s'. serviceScheduledEvents call clk s = Inr s' \<and>
     schedule_root_node s' =
       (if thread_recurs (schedule_root_node s2 ! j) = - 1
        then (schedule_root_node s2)[j := (schedule_root_node s2 ! j)\<lparr>thread_fire := False\<rparr>]
        else if thread_recurs (schedule_root_node s2 ! j) = 0 then
          (if autoclear (schedule_root_node s2 ! j)
           then take j (schedule_root_node s2) @ drop (Suc j) (schedule_root_node s2)
           else (schedule_root_node s2)[j := (schedule_root_node s2 ! j)
                  \<lparr>thread_enabled := False, thread_fire := False,
                   thread_time_to_wait := thread_period (schedule_root_node s2 ! j)\<rparr>])
        else (schedule_root_node s2)[j := (schedule_root_node s2 ! j)
               \<lparr>thread_fire := False,
                thread_recurs := thread_recurs (schedule_root_node s2 ! j) - 1\<rparr>])"
proof -
  from service_node_returns [where call = call and clk = clk, OF callback s2 still alloc]
  obtain s' where "service_node call clk s i = Inr s'"
    and "schedule_root_node s' =
       (if thread_recurs (schedule_root_node s2 ! j) = - 1
        then (schedule_root_node s2)[j := (schedule_root_node s2 ! j)\<lparr>thread_fire := False\<rparr>]
        else if thread_recurs (schedule_root_node s2 ! j) = 0 then
          (if autoclear (schedule_root_node s2 ! j)
           then take j (schedule_root_node s2) @ drop (Suc j) (schedule_root_node s2)
           else (schedule_root_node s2)[j := (schedule_root_node s2 ! j)
                  \<lparr>thread_enabled := False, thread_fire := False,
                   thread_time_to_wait := thread_period (schedule_root_node s2 ! j)\<rparr>])
        else (schedule_root_node s2)[j := (schedule_root_node s2 ! j)
               \<lparr>thread_fire := False,
                thread_recurs := thread_recurs (schedule_root_node s2 ! j) - 1\<rparr>])"
    by blast
  then show ?thesis
    by (simp add: serviceScheduledEvents_def due)
qed

theorem serviceScheduledEvents_recurrence_witness:
  "first_node thread_fire (schedule_root_node (pending_single (- 1) False)) = Some 0
   \<and> schedule_callback (schedule_root_node (pending_single (- 1) False) ! 0) \<noteq> NULL
   \<and> profile_allocated (pending_single (- 1) False) 0
   \<and> (\<exists>s'. serviceScheduledEvents (\<lambda>f st. st) example_clock (pending_single (- 1) False) = Inr s'
         \<and> schedule_root_node s' =
             [(schedule_root_node (pending_single (- 1) False) ! 0)\<lparr>thread_fire := False\<rparr>])
   \<and> (\<exists>s'. serviceScheduledEvents (\<lambda>f st. st) example_clock (pending_single 0 True) = Inr s'
         \<and> schedule_root_node s' = [])
   \<and> (\<exists>s'. serviceScheduledEvents (\<lambda>f st. st) example_clock (pending_single 0 False) = Inr s'
         \<and> schedule_root_node s' =
             [(schedule_root_node (pending_single 0 False) ! 0)
                \<lparr>thread_enabled := False, thread_fire := False, thread_time_to_wait := 2\<rparr>])
   \<and> (\<exists>s'. serviceScheduledEvents (\<lambda>f st. st) example_clock (pending_single 3 False) = Inr s'
         \<and> schedule_root_node s' =
             [(schedule_root_node (pending_single 3 False) ! 0)
                \<lparr>thread_fire := False, thread_recurs := 2\<rparr>])
   \<and> (\<exists>s'. serviceScheduledEvents remove_itself example_clock (pending_single (- 1) False) = Inr s'
         \<and> schedule_root_node s' = [])"
proof -
  have due: "first_node thread_fire (schedule_root_node (pending_single r ac)) = Some 0" for r ac
    by (simp add: pending_single_eq)
  have callback: "schedule_callback (schedule_root_node (pending_single r ac) ! 0) \<noteq> NULL" for r ac
    by (simp add: pending_single_eq)
  have alloc: "profile_allocated (pending_single r ac) 0" for r ac
    by (simp add: profile_allocated_def pending_single_eq)
  have quiet: "(pending_single r ac)\<lparr>currently_executing := 1\<rparr> =
      (\<lambda>f st. st) (schedule_callback (schedule_root_node (pending_single r ac) ! 0))
        ((pending_single r ac)\<lparr>currently_executing := pid (schedule_root_node (pending_single r ac) ! 0)\<rparr>)"
    for r ac
    by (simp add: pending_single_eq)
  have still: "node_position ((pending_single r ac)\<lparr>currently_executing := 1\<rparr>)
      (node_addr (schedule_root_node (pending_single r ac) ! 0)) = Some 0" for r ac
    by (simp add: node_position_def pending_single_eq)
  have alloc2: "profile_allocated ((pending_single r ac)\<lparr>currently_executing := 1\<rparr>) 0" for r ac
    by (simp add: profile_allocated_def pending_single_eq)
  note fact = serviceScheduledEvents_recurrence
    [where call = "\<lambda>f st. st" and clk = example_clock, OF due callback quiet still alloc alloc2]
  have a: "\<exists>s'. serviceScheduledEvents (\<lambda>f st. st) example_clock (pending_single (- 1) False) = Inr s'
         \<and> schedule_root_node s' =
             [(schedule_root_node (pending_single (- 1) False) ! 0)\<lparr>thread_fire := False\<rparr>]"
    using fact [of "- 1" False] by (simp add: pending_single_eq)
  have b: "\<exists>s'. serviceScheduledEvents (\<lambda>f st. st) example_clock (pending_single 0 True) = Inr s'
         \<and> schedule_root_node s' = []"
    using fact [of 0 True] by (simp add: pending_single_eq)
  have c: "\<exists>s'. serviceScheduledEvents (\<lambda>f st. st) example_clock (pending_single 0 False) = Inr s'
         \<and> schedule_root_node s' =
             [(schedule_root_node (pending_single 0 False) ! 0)
                \<lparr>thread_enabled := False, thread_fire := False, thread_time_to_wait := 2\<rparr>]"
    using fact [of 0 False] by (simp add: pending_single_eq)
  have d: "\<exists>s'. serviceScheduledEvents (\<lambda>f st. st) example_clock (pending_single 3 False) = Inr s'
         \<and> schedule_root_node s' =
             [(schedule_root_node (pending_single 3 False) ! 0)
                \<lparr>thread_fire := False, thread_recurs := 2\<rparr>]"
    using fact [of 3 False] by (simp add: pending_single_eq)
  define marked where "marked = (pending_single (- 1) False)
      \<lparr>currently_executing := 1,
        schedule_root_node := [(schedule_root_node (pending_single (- 1) False) ! 0)
           \<lparr>autoclear := True, thread_recurs := 0\<rparr>]\<rparr>"
  have removing: "marked =
      remove_itself (schedule_callback (schedule_root_node (pending_single (- 1) False) ! 0))
        ((pending_single (- 1) False)
           \<lparr>currently_executing := pid (schedule_root_node (pending_single (- 1) False) ! 0)\<rparr>)"
    by (simp add: marked_def remove_itself_def removeSchedule_def findNodeByPID_def update_node_def
        pending_single_eq)
  have still_marked: "node_position marked
      (node_addr (schedule_root_node (pending_single (- 1) False) ! 0)) = Some 0"
    by (simp add: node_position_def marked_def pending_single_eq)
  have alloc_marked: "profile_allocated marked 0"
    by (simp add: profile_allocated_def marked_def pending_single_eq)
  have e: "\<exists>s'. serviceScheduledEvents remove_itself example_clock (pending_single (- 1) False) = Inr s'
         \<and> schedule_root_node s' = []"
    using serviceScheduledEvents_recurrence [where call = remove_itself and clk = example_clock,
        OF due callback removing still_marked alloc alloc_marked]
    by (simp add: marked_def pending_single_eq)
  from due [of "- 1" False] callback [of "- 1" False] alloc [of "- 1" False] a b c d e
  show ?thesis by (intro conjI)
qed

subsection \<open>C5\<close>

text \<open>
  C5. Let the first pending node of the chain be at position \<open>i\<close> and have a callback.
  One call of \<open>serviceScheduledEvents\<close> invokes that callback, once, and no other: with
  \<open>s2\<close> the state in which this one call of the callback returns (the node still in the
  chain then, at position \<open>j\<close>, its profile pointer null or allocated), the call returns
  a state that continues \<open>s2\<close>: the PID counter of \<open>s2\<close>, its two loop counters each one
  higher, \<open>currently_executing\<close> back at 0. Every other node that is pending in \<open>s2\<close>, at
  a position \<open>k\<close>, is in the chain afterwards exactly as in \<open>s2\<close>, pending flag
  included, one position earlier when the serviced node was unlinked in front of it. If
  no node before it other than the serviced one is pending, it is the first pending node
  of the chain afterwards, so it is the one the next call services. The result does not
  depend on what any callback other than that of the first pending node would do. For a
  callback that leaves the scheduler alone the chain of \<open>s2\<close> is the chain before the
  call, so every other pending node keeps the fields it had before the call.
\<close>

theorem serviceScheduledEvents_first_due_only:
  assumes due: "first_node thread_fire (schedule_root_node s) = Some i"
    and callback: "schedule_callback (schedule_root_node s ! i) \<noteq> NULL"
    and s2: "s2 = call (schedule_callback (schedule_root_node s ! i))
                      (s\<lparr>currently_executing := pid (schedule_root_node s ! i)\<rparr>)"
    and still: "node_position s2 (node_addr (schedule_root_node s ! i)) = Some j"
    and alloc: "profile_allocated s i" "profile_allocated s2 j"
    and k: "k < length (schedule_root_node s2)" "k \<noteq> j" "thread_fire (schedule_root_node s2 ! k)"
  shows "(\<exists>s' k'. serviceScheduledEvents call clk s = Inr s'
            \<and> next_pid s' = next_pid s2
            \<and> productive_loops s' = productive_loops s2 + 1
            \<and> total_loops s' = total_loops s2 + 1
            \<and> currently_executing s' = 0
            \<and> k' = (if thread_recurs (schedule_root_node s2 ! j) = 0
                        \<and> autoclear (schedule_root_node s2 ! j) \<and> j < k then k - 1 else k)
            \<and> k' < length (schedule_root_node s')
            \<and> schedule_root_node s' ! k' = schedule_root_node s2 ! k
            \<and> ((\<forall>m<k. m \<noteq> j \<longrightarrow> \<not> thread_fire (schedule_root_node s2 ! m)) \<longrightarrow>
                 first_node thread_fire (schedule_root_node s') = Some k'))
      \<and> (\<forall>call'. call' (schedule_callback (schedule_root_node s ! i))
                    = call (schedule_callback (schedule_root_node s ! i)) \<longrightarrow>
              serviceScheduledEvents call' clk s = serviceScheduledEvents call clk s)"
proof (intro conjI allI impI)
  fix call'
  assume "call' (schedule_callback (schedule_root_node s ! i))
            = call (schedule_callback (schedule_root_node s ! i))"
  with due show "serviceScheduledEvents call' clk s = serviceScheduledEvents call clk s"
    by (intro serviceScheduledEvents_call_cong) simp
next
  let ?xs = "schedule_root_node s2"
  let ?t = "?xs ! j"
  let ?reaped = "thread_recurs ?t = 0 \<and> autoclear ?t"
  from node_position_SomeD(1) [OF still] have j: "j < length ?xs" .
  from serviceScheduledEvents_after_callback
    [where call = call and clk = clk, OF due callback s2 still alloc]
  obtain s' where run: "serviceScheduledEvents call clk s = Inr s'"
    and fields: "next_pid s' = next_pid s2" "productive_loops s' = productive_loops s2 + 1"
      "total_loops s' = total_loops s2 + 1" "currently_executing s' = 0"
    and nodes: "schedule_root_node s' =
       (if ?reaped then take j ?xs @ drop (Suc j) ?xs
        else ?xs[j :=
          (if thread_recurs ?t = - 1 then ?t\<lparr>thread_fire := False\<rparr>
           else if thread_recurs ?t = 0
           then ?t\<lparr>thread_enabled := False, thread_fire := False,
                   thread_time_to_wait := thread_period ?t\<rparr>
           else ?t\<lparr>thread_fire := False, thread_recurs := thread_recurs ?t - 1\<rparr>)])"
    by blast
  define k' where "k' = (if ?reaped \<and> j < k then k - 1 else k)"
  have "k' < length (schedule_root_node s')
      \<and> schedule_root_node s' ! k' = ?xs ! k
      \<and> ((\<forall>m<k. m \<noteq> j \<longrightarrow> \<not> thread_fire (?xs ! m)) \<longrightarrow>
            first_node thread_fire (schedule_root_node s') = Some k')"
  proof (cases ?reaped)
    case True
    with nodes have ys: "schedule_root_node s' = take j ?xs @ drop (Suc j) ?xs"
      by simp
    have k'_eq: "k' = (if j < k then k - 1 else k)"
      using True by (simp add: k'_def)
    have Suc_k': "Suc k' < length ?xs"
      using j k by (auto simp: k'_eq)
    have len: "k' < length (schedule_root_node s')"
      using j Suc_k' by (simp add: ys)
    have nth: "schedule_root_node s' ! m = (if m < j then ?xs ! m else ?xs ! Suc m)"
      if "Suc m < length ?xs" for m
      unfolding ys using j that by (rule nth_unlink)
    have kth: "schedule_root_node s' ! k' = ?xs ! k"
      using nth [OF Suc_k'] k by (auto simp: k'_eq)
    have next_due: "first_node thread_fire (schedule_root_node s') = Some k'"
      if gap: "\<forall>m<k. m \<noteq> j \<longrightarrow> \<not> thread_fire (?xs ! m)"
    proof (rule first_node_SomeI [OF len])
      show "thread_fire (schedule_root_node s' ! k')"
        using kth k by simp
      show "\<forall>m<k'. \<not> thread_fire (schedule_root_node s' ! m)"
      proof (intro allI impI)
        fix m assume m: "m < k'"
        with Suc_k' have "Suc m < length ?xs" by simp
        from nth [OF this]
        have at: "schedule_root_node s' ! m = (if m < j then ?xs ! m else ?xs ! Suc m)" .
        show "\<not> thread_fire (schedule_root_node s' ! m)"
        proof (cases "m < j")
          case True
          with m have "m < k" "m \<noteq> j" by (auto simp: k'_eq split: if_splits)
          with gap at True show ?thesis by simp
        next
          case False
          with m k have "Suc m < k" "Suc m \<noteq> j" by (auto simp: k'_eq split: if_splits)
          with gap at False show ?thesis by simp
        qed
      qed
    qed
    from len kth next_due show ?thesis by blast
  next
    case False
    then obtain y where ys: "schedule_root_node s' = ?xs[j := y]" and y: "\<not> thread_fire y"
      using nodes by (cases "thread_recurs ?t = - 1"; cases "thread_recurs ?t = 0") auto
    have k'_eq: "k' = k"
      using False by (auto simp: k'_def)
    have len: "k' < length (schedule_root_node s')"
      using k by (simp add: ys k'_eq)
    have kth: "schedule_root_node s' ! k' = ?xs ! k"
      using k by (simp add: ys k'_eq)
    have next_due: "first_node thread_fire (schedule_root_node s') = Some k'"
      if gap: "\<forall>m<k. m \<noteq> j \<longrightarrow> \<not> thread_fire (?xs ! m)"
    proof (rule first_node_SomeI [OF len])
      show "thread_fire (schedule_root_node s' ! k')"
        using kth k by simp
      show "\<forall>m<k'. \<not> thread_fire (schedule_root_node s' ! m)"
      proof (intro allI impI)
        fix m assume m: "m < k'"
        show "\<not> thread_fire (schedule_root_node s' ! m)"
        proof (cases "m = j")
          case True
          with j y show ?thesis by (simp add: ys)
        next
          case False
          with gap m show ?thesis by (simp add: ys k'_eq)
        qed
      qed
    qed
    from len kth next_due show ?thesis by blast
  qed
  with run fields show "\<exists>s' k'. serviceScheduledEvents call clk s = Inr s'
            \<and> next_pid s' = next_pid s2
            \<and> productive_loops s' = productive_loops s2 + 1
            \<and> total_loops s' = total_loops s2 + 1
            \<and> currently_executing s' = 0
            \<and> k' = (if thread_recurs (schedule_root_node s2 ! j) = 0
                        \<and> autoclear (schedule_root_node s2 ! j) \<and> j < k then k - 1 else k)
            \<and> k' < length (schedule_root_node s')
            \<and> schedule_root_node s' ! k' = schedule_root_node s2 ! k
            \<and> ((\<forall>m<k. m \<noteq> j \<longrightarrow> \<not> thread_fire (schedule_root_node s2 ! m)) \<longrightarrow>
                 first_node thread_fire (schedule_root_node s') = Some k')"
    unfolding k'_def
    by (intro exI [of _ s'] exI [of _ "if ?reaped \<and> j < k then k - 1 else k"]) simp
qed

theorem serviceScheduledEvents_first_due_only_witness:
  "first_node thread_fire (schedule_root_node (pending_double (- 1) False)) = Some 0
   \<and> schedule_callback (schedule_root_node (pending_double (- 1) False) ! 0) \<noteq> NULL
   \<and> profile_allocated (pending_double (- 1) False) 0
   \<and> thread_fire (schedule_root_node (pending_double (- 1) False) ! 1)
   \<and> (\<exists>s'. serviceScheduledEvents (\<lambda>f st. st) example_clock (pending_double (- 1) False) = Inr s'
         \<and> productive_loops s' = 1
         \<and> 1 < length (schedule_root_node s')
         \<and> schedule_root_node s' ! 1 = schedule_root_node (pending_double (- 1) False) ! 1
         \<and> first_node thread_fire (schedule_root_node s') = Some 1)
   \<and> (\<exists>s'. serviceScheduledEvents (\<lambda>f st. st) example_clock (pending_double 0 True) = Inr s'
         \<and> productive_loops s' = 1
         \<and> 0 < length (schedule_root_node s')
         \<and> schedule_root_node s' ! 0 = schedule_root_node (pending_double 0 True) ! 1
         \<and> first_node thread_fire (schedule_root_node s') = Some 0)
   \<and> (\<exists>s'. serviceScheduledEvents mark_other example_clock (pending_double (- 1) False) = Inr s'
         \<and> productive_loops s' = 1
         \<and> 1 < length (schedule_root_node s')
         \<and> schedule_root_node s' ! 1 =
             (schedule_root_node (pending_double (- 1) False) ! 1)\<lparr>autoclear := True\<rparr>
         \<and> first_node thread_fire (schedule_root_node s') = Some 1)
   \<and> serviceScheduledEvents (\<lambda>f st. if f = 7 then st else new_Scheduler) example_clock
         (pending_double (- 1) False)
       = serviceScheduledEvents (\<lambda>f st. st) example_clock (pending_double (- 1) False)"
proof -
  let ?quiet = "\<lambda>(f::FunctionPointer) (st::Scheduler). st"
  have due: "first_node thread_fire (schedule_root_node (pending_double r ac)) = Some 0" for r ac
    by (simp add: pending_double_eq)
  have callback: "schedule_callback (schedule_root_node (pending_double r ac) ! 0) \<noteq> NULL" for r ac
    by (simp add: pending_double_eq)
  have alloc: "profile_allocated (pending_double r ac) 0" for r ac
    by (simp add: profile_allocated_def pending_double_eq)
  have other: "thread_fire (schedule_root_node (pending_double r ac) ! 1)" for r ac
    by (simp add: pending_double_eq)
  have neq: "(1::nat) \<noteq> 0" by simp
  have gap_trivial: "(\<forall>m<(1::nat). m \<noteq> 0 \<longrightarrow> P m) = True" for P
    by simp

  define q where "q = (\<lambda>r ac. (pending_double r ac)\<lparr>currently_executing := 1\<rparr>)"
  have q_run: "q r ac = ?quiet (schedule_callback (schedule_root_node (pending_double r ac) ! 0))
      ((pending_double r ac)\<lparr>currently_executing := pid (schedule_root_node (pending_double r ac) ! 0)\<rparr>)"
    for r ac
    by (simp add: q_def pending_double_eq)
  have q_still: "node_position (q r ac) (node_addr (schedule_root_node (pending_double r ac) ! 0)) = Some 0"
    for r ac
    by (simp add: q_def node_position_def pending_double_eq)
  have q_alloc: "profile_allocated (q r ac) 0" for r ac
    by (simp add: q_def profile_allocated_def pending_double_eq)
  have q_len: "1 < length (schedule_root_node (q r ac))" for r ac
    by (simp add: q_def pending_double_eq)
  have q_other: "thread_fire (schedule_root_node (q r ac) ! 1)" for r ac
    by (simp add: q_def pending_double_eq)
  have q_loops: "productive_loops (q r ac) + 1 = 1" for r ac
    by (simp add: q_def pending_double_eq)
  have q_node: "schedule_root_node (q r ac) ! 1 = schedule_root_node (pending_double r ac) ! 1" for r ac
    by (simp add: q_def)
  have q_keep: "(if thread_recurs (schedule_root_node (q (- 1) False) ! 0) = 0
        \<and> autoclear (schedule_root_node (q (- 1) False) ! 0) \<and> (0::nat) < 1 then (1::nat) - 1 else 1) = 1"
    by (simp add: q_def pending_double_eq)
  have q_reap: "(if thread_recurs (schedule_root_node (q 0 True) ! 0) = 0
        \<and> autoclear (schedule_root_node (q 0 True) ! 0) \<and> (0::nat) < 1 then (1::nat) - 1 else 1) = 0"
    by (simp add: q_def pending_double_eq)
  note quiet_fact = serviceScheduledEvents_first_due_only
    [where call = ?quiet and clk = example_clock and k = 1,
     OF due callback q_run q_still alloc q_alloc q_len neq q_other]

  from quiet_fact [of "- 1" False, THEN conjunct1, unfolded q_keep gap_trivial q_loops q_node]
  obtain s' where "serviceScheduledEvents ?quiet example_clock (pending_double (- 1) False) = Inr s'"
    and "productive_loops s' = 1"
    and "1 < length (schedule_root_node s')"
    and "schedule_root_node s' ! 1 = schedule_root_node (pending_double (- 1) False) ! 1"
    and "True \<longrightarrow> first_node thread_fire (schedule_root_node s') = Some 1"
    by blast
  then have a: "\<exists>s'. serviceScheduledEvents ?quiet example_clock (pending_double (- 1) False) = Inr s'
         \<and> productive_loops s' = 1
         \<and> 1 < length (schedule_root_node s')
         \<and> schedule_root_node s' ! 1 = schedule_root_node (pending_double (- 1) False) ! 1
         \<and> first_node thread_fire (schedule_root_node s') = Some 1"
    by blast

  from quiet_fact [of 0 True, THEN conjunct1, unfolded q_reap gap_trivial q_loops q_node]
  obtain s'' where "serviceScheduledEvents ?quiet example_clock (pending_double 0 True) = Inr s''"
    and "productive_loops s'' = 1"
    and "0 < length (schedule_root_node s'')"
    and "schedule_root_node s'' ! 0 = schedule_root_node (pending_double 0 True) ! 1"
    and "True \<longrightarrow> first_node thread_fire (schedule_root_node s'') = Some 0"
    by blast
  then have b: "\<exists>s'. serviceScheduledEvents ?quiet example_clock (pending_double 0 True) = Inr s'
         \<and> productive_loops s' = 1
         \<and> 0 < length (schedule_root_node s')
         \<and> schedule_root_node s' ! 0 = schedule_root_node (pending_double 0 True) ! 1
         \<and> first_node thread_fire (schedule_root_node s') = Some 0"
    by blast

  define marked where "marked = (pending_double (- 1) False)
      \<lparr>currently_executing := 1,
        schedule_root_node := [schedule_root_node (pending_double (- 1) False) ! 0,
           (schedule_root_node (pending_double (- 1) False) ! 1)\<lparr>autoclear := True\<rparr>]\<rparr>"
  have m_run: "marked = mark_other (schedule_callback (schedule_root_node (pending_double (- 1) False) ! 0))
      ((pending_double (- 1) False)
         \<lparr>currently_executing := pid (schedule_root_node (pending_double (- 1) False) ! 0)\<rparr>)"
    by (simp add: marked_def mark_other_def alterSchedule_autoclear_def findNodeByPID_def
        update_node_def pending_double_eq)
  have m_still: "node_position marked
      (node_addr (schedule_root_node (pending_double (- 1) False) ! 0)) = Some 0"
    by (simp add: marked_def node_position_def pending_double_eq)
  have m_alloc: "profile_allocated marked 0"
    by (simp add: marked_def profile_allocated_def pending_double_eq)
  have m_len: "1 < length (schedule_root_node marked)"
    by (simp add: marked_def)
  have m_other: "thread_fire (schedule_root_node marked ! 1)"
    by (simp add: marked_def pending_double_eq)
  have m_loops: "productive_loops marked + 1 = 1"
    by (simp add: marked_def pending_double_eq)
  have m_node: "schedule_root_node marked ! 1 =
      (schedule_root_node (pending_double (- 1) False) ! 1)\<lparr>autoclear := True\<rparr>"
    by (simp add: marked_def)
  have m_keep: "(if thread_recurs (schedule_root_node marked ! 0) = 0
        \<and> autoclear (schedule_root_node marked ! 0) \<and> (0::nat) < 1 then (1::nat) - 1 else 1) = 1"
    by (simp add: marked_def pending_double_eq)
  from serviceScheduledEvents_first_due_only
    [where call = mark_other and clk = example_clock and k = 1,
     OF due callback m_run m_still alloc m_alloc m_len neq m_other,
     THEN conjunct1, unfolded m_keep gap_trivial m_loops m_node]
  obtain s3 where "serviceScheduledEvents mark_other example_clock (pending_double (- 1) False) = Inr s3"
    and "productive_loops s3 = 1"
    and "1 < length (schedule_root_node s3)"
    and "schedule_root_node s3 ! 1 =
           (schedule_root_node (pending_double (- 1) False) ! 1)\<lparr>autoclear := True\<rparr>"
    and "True \<longrightarrow> first_node thread_fire (schedule_root_node s3) = Some 1"
    by blast
  then have c: "\<exists>s'. serviceScheduledEvents mark_other example_clock (pending_double (- 1) False) = Inr s'
         \<and> productive_loops s' = 1
         \<and> 1 < length (schedule_root_node s')
         \<and> schedule_root_node s' ! 1 =
             (schedule_root_node (pending_double (- 1) False) ! 1)\<lparr>autoclear := True\<rparr>
         \<and> first_node thread_fire (schedule_root_node s') = Some 1"
    by blast

  have same: "(\<lambda>f st. if f = 7 then st else new_Scheduler)
                (schedule_callback (schedule_root_node (pending_double (- 1) False) ! 0))
              = ?quiet (schedule_callback (schedule_root_node (pending_double (- 1) False) ! 0))"
    by (simp add: pending_double_eq)
  have d: "serviceScheduledEvents (\<lambda>f st. if f = 7 then st else new_Scheduler) example_clock
         (pending_double (- 1) False)
       = serviceScheduledEvents ?quiet example_clock (pending_double (- 1) False)"
    using quiet_fact [of "- 1" False, THEN conjunct2, THEN spec,
        of "\<lambda>f st. if f = 7 then st else new_Scheduler"] same
    by (rule mp)
  from due [of "- 1" False] callback [of "- 1" False] alloc [of "- 1" False]
    other [of "- 1" False] a b c d
  show ?thesis by (intro conjI)
qed

subsection \<open>C6\<close>

text \<open>
  C6. When the PID resolves to a node of the chain, \<open>removeSchedule\<close> returns true. If the
  PID of the node is the one in \<open>currently_executing\<close>, the node stays in the chain at its
  position and only \<open>autoclear\<close> (set) and \<open>thread_recurs\<close> (0) change. Otherwise the node
  is unlinked and destroyed at once, together with its profiling record.
\<close>

theorem removeSchedule_live:
  assumes "findNodeByPID s g_pid = Some i"
  shows "(pid (schedule_root_node s ! i) = currently_executing s \<longrightarrow>
            removeSchedule s g_pid =
              Inr (True, s\<lparr>schedule_root_node := (schedule_root_node s)
                     [i := (schedule_root_node s ! i)\<lparr>autoclear := True, thread_recurs := 0\<rparr>]\<rparr>))
       \<and> (pid (schedule_root_node s ! i) \<noteq> currently_executing s \<and> profile_allocated s i \<longrightarrow>
            removeSchedule s g_pid =
              Inr (True, s\<lparr>schedule_root_node :=
                       take i (schedule_root_node s) @ drop (Suc i) (schedule_root_node s),
                     prof_heap := free_profile s i\<rparr>))"
  using assms
  by (simp add: removeSchedule_def update_node_def destroyScheduleItem_allocated unlink_node_def)

theorem removeSchedule_live_witness:
  "findNodeByPID (profiled_single\<lparr>currently_executing := 1\<rparr>) 1 = Some 0
   \<and> removeSchedule (profiled_single\<lparr>currently_executing := 1\<rparr>) 1 =
       Inr (True, profiled_single\<lparr>currently_executing := 1,
              schedule_root_node :=
                [(schedule_root_node profiled_single ! 0)\<lparr>autoclear := True, thread_recurs := 0\<rparr>]\<rparr>)
   \<and> findNodeByPID profiled_single 1 = Some 0
   \<and> pid (schedule_root_node profiled_single ! 0) \<noteq> currently_executing profiled_single
   \<and> profile_allocated profiled_single 0
   \<and> removeSchedule profiled_single 1 =
       Inr (True, profiled_single\<lparr>schedule_root_node := [], prof_heap := (\<lambda>_. None)\<rparr>)"
proof -
  have found: "findNodeByPID (profiled_single\<lparr>currently_executing := c\<rparr>) 1 = Some 0" for c
    by (simp add: findNodeByPID_def profiled_single_def)
  have alloc: "profile_allocated profiled_single 0"
    by (simp add: profile_allocated_def profiled_single_def)
  have heap: "free_profile profiled_single 0 = (\<lambda>_. None)"
    by (simp add: free_profile_def profiled_single_def)
  have deferred: "removeSchedule (profiled_single\<lparr>currently_executing := 1\<rparr>) 1 =
       Inr (True, profiled_single\<lparr>currently_executing := 1,
              schedule_root_node :=
                [(schedule_root_node profiled_single ! 0)\<lparr>autoclear := True, thread_recurs := 0\<rparr>]\<rparr>)"
    using removeSchedule_live [OF found [of 1]] by (simp add: profiled_single_def)
  have found0: "findNodeByPID profiled_single 1 = Some 0"
    by (simp add: findNodeByPID_def profiled_single_def)
  have other: "pid (schedule_root_node profiled_single ! 0) \<noteq> currently_executing profiled_single"
    by (simp add: profiled_single_def)
  have destroyed: "removeSchedule profiled_single 1 =
       Inr (True, profiled_single\<lparr>schedule_root_node := [], prof_heap := (\<lambda>_. None)\<rparr>)"
    using removeSchedule_live [OF found0] other alloc by (simp add: heap) (simp add: profiled_single_def)
  from found [of 1] deferred found0 other alloc destroyed show ?thesis
    by (intro conjI)
qed

subsection \<open>C7\<close>

text \<open>
  C7. The claim does not hold of the source: \<open>clearProfilingData\<close> frees the record but
  the node keeps the pointer to it. On the profiled schedule of \<open>profiled_single\<close>, after
  \<open>clearProfilingData\<close> the member \<open>prof_data\<close> still holds address 200, which is no
  longer allocated; \<open>scheduleBeingProfiled\<close> reads the freed record instead of reporting
  false, and \<open>beginProfiling\<close> finds a pointer that is not null and allocates nothing.
\<close>

theorem clearProfilingData_leaves_pointer:
  "scheduleBeingProfiled profiled_single 1 = Inr True
   \<and> clearProfilingData profiled_single 1 = Inr cleared_single
   \<and> prof_data (schedule_root_node cleared_single ! 0) = 200
   \<and> prof_heap cleared_single 200 = None
   \<and> scheduleBeingProfiled cleared_single 1 = Inl UseAfterFree
   \<and> beginProfiling cleared_single 300 1 = Inr cleared_single"
  by (simp add: scheduleBeingProfiled_def scheduleBeingProfiled_obj_def clearProfilingData_def
      clearProfilingData_obj_def beginProfiling_def beginProfiling_obj_def findNodeByPID_def
      profiled_single_def cleared_single_def fun_upd_idem_iff)

subsection \<open>C8\<close>

text \<open>
  C8. Every public operation (create, the five alter functions, enable, disable, the two
  delay functions, remove, advance, dispatch) preserves the reset invariant: if every
  disabled node of the chain has \<open>thread_time_to_wait\<close> equal to its period and is not
  pending before the call, the same holds after it. For the dispatch, the callbacks are
  taken to preserve the invariant themselves, as they do when they act on the scheduler
  through these operations.
\<close>

theorem reset_invariant_preserved:
  assumes inv: "reset_invariant s"
    and callbacks: "\<forall>f st. reset_invariant st \<longrightarrow> reset_invariant (call f st)"
    and run: "perform call operation s = Inr s'"
  shows "reset_invariant s'"
proof (cases operation)
  case (Remove g_pid)
  with run obtain return_value where "removeSchedule s g_pid = Inr (return_value, s')"
    by (auto split: sum.splits)
  with inv show ?thesis by (rule reset_invariant_remove)
next
  case (Dispatch clk)
  with run have "serviceScheduledEvents call clk s = Inr s'" by simp
  with inv callbacks show ?thesis by (rule reset_invariant_service)
qed (use inv run in \<open>auto simp: reset_invariant_create reset_invariant_alter
    reset_invariant_alter_autoclear reset_invariant_alter_callback reset_invariant_alter_period
    reset_invariant_alter_recurrence reset_invariant_enable reset_invariant_disable
    reset_invariant_delay reset_invariant_delay_period reset_invariant_advance\<close>)

theorem reset_invariant_preserved_witness:
  "reset_invariant (pending_single 0 False)
   \<and> (\<exists>s'. perform (\<lambda>f st. st) (Dispatch example_clock) (pending_single 0 False) = Inr s'
         \<and> reset_invariant s'
         \<and> \<not> thread_enabled (schedule_root_node s' ! 0)
         \<and> \<not> thread_fire (schedule_root_node s' ! 0)
         \<and> thread_time_to_wait (schedule_root_node s' ! 0) = thread_period (schedule_root_node s' ! 0))"
proof -
  have inv: "reset_invariant (pending_single 0 False)"
    by (simp add: reset_invariant_def node_reset_def pending_single_eq)
  have callbacks: "\<forall>f st. reset_invariant st \<longrightarrow> reset_invariant ((\<lambda>f st. st) f st)"
    by simp
  have due: "first_node thread_fire (schedule_root_node (pending_single 0 False)) = Some 0"
    by (simp add: pending_single_eq)
  have wf: "distinct (map node_addr (schedule_root_node (pending_single 0 False)))"
    by (simp add: pending_single_eq)
  have alloc: "profile_allocated (pending_single 0 False) 0"
    by (simp add: profile_allocated_def pending_single_eq)
  from serviceScheduledEvents_nodes
    [where call = "\<lambda>f st. st" and clk = example_clock, OF due refl wf alloc]
  obtain s' where run: "serviceScheduledEvents (\<lambda>f st. st) example_clock (pending_single 0 False) = Inr s'"
    and nodes: "schedule_root_node s' =
      [(schedule_root_node (pending_single 0 False) ! 0)
         \<lparr>thread_enabled := False, thread_fire := False, thread_time_to_wait := 2\<rparr>]"
    by (auto simp: pending_single_eq)
  from run have step: "perform (\<lambda>f st. st) (Dispatch example_clock) (pending_single 0 False) = Inr s'"
    by simp
  from reset_invariant_preserved [OF inv callbacks step] have "reset_invariant s'" .
  moreover from nodes have "\<not> thread_enabled (schedule_root_node s' ! 0)"
    and "\<not> thread_fire (schedule_root_node s' ! 0)"
    and "thread_time_to_wait (schedule_root_node s' ! 0) = thread_period (schedule_root_node s' ! 0)"
    by (simp_all add: pending_single_eq)
  ultimately show ?thesis
    using inv step by blast
qed

subsection \<open>C9\<close>

text \<open>
  C9. For every PID, also one that no node of the chain has, \<open>removeSchedule\<close> returns
  true and never false. The only way not to return true is not to return at all: the
  call faults when it frees the profiling record of a node whose record was already
  freed. For a PID that is not found the state is returned as it was.
\<close>

theorem removeSchedule_always_true:
  "(case removeSchedule s g_pid of
      Inr (return_value, s') \<Rightarrow> return_value = True
    | Inl e \<Rightarrow> e = DoubleFree \<and> (\<exists>i. findNodeByPID s g_pid = Some i \<and> \<not> profile_allocated s i))
   \<and> (findNodeByPID s g_pid = None \<longrightarrow> removeSchedule s g_pid = Inr (True, s))"
proof (cases "findNodeByPID s g_pid")
  case None
  then show ?thesis by (simp add: removeSchedule_def)
next
  case (Some i)
  show ?thesis
  proof (cases "destroyScheduleItem s (Some i)")
    case (Inl e)
    from destroyScheduleItem_fault [OF Inl] Some Inl show ?thesis
      by (auto simp: removeSchedule_def)
  next
    case (Inr s')
    with Some show ?thesis by (auto simp: removeSchedule_def)
  qed
qed

theorem removeSchedule_always_true_witness:
  "findNodeByPID new_Scheduler 7 = None
   \<and> removeSchedule new_Scheduler 7 = Inr (True, new_Scheduler)
   \<and> findNodeByPID (single (- 1) False) 1 = Some 0
   \<and> (\<exists>s'. removeSchedule (single (- 1) False) 1 = Inr (True, s'))
   \<and> findNodeByPID (single (- 1) False) 9 = None
   \<and> removeSchedule (single (- 1) False) 9 = Inr (True, single (- 1) False)"
proof -
  have unknown: "findNodeByPID new_Scheduler 7 = None"
    by (simp add: findNodeByPID_def new_Scheduler_def)
  have found: "findNodeByPID (single (- 1) False) 1 = Some 0"
    by (simp add: findNodeByPID_def single_eq)
  have missing: "findNodeByPID (single (- 1) False) 9 = None"
    by (simp add: findNodeByPID_def single_eq)
  have "profile_allocated (single (- 1) False) 0"
    by (simp add: profile_allocated_def single_eq)
  with found obtain b s' where returns: "removeSchedule (single (- 1) False) 1 = Inr (b, s')"
    by (simp add: removeSchedule_def destroyScheduleItem_allocated single_eq)
  with removeSchedule_always_true [of "single (- 1) False" 1] have "b = True"
    by simp
  with returns have live: "\<exists>s'. removeSchedule (single (- 1) False) 1 = Inr (True, s')"
    by blast
  from removeSchedule_always_true [of new_Scheduler 7] unknown
  have a: "removeSchedule new_Scheduler 7 = Inr (True, new_Scheduler)"
    by blast
  from removeSchedule_always_true [of "single (- 1) False" 9] missing
  have c: "removeSchedule (single (- 1) False) 9 = Inr (True, single (- 1) False)"
    by blast
  from unknown a found live missing c show ?thesis
    by (intro conjI)
qed

subsection \<open>C10\<close>

text \<open>
  C10. \<open>willRunAgain\<close> returns true exactly when the PID resolves to a node that is
  enabled and whose \<open>thread_recurs\<close> is -1 or positive. For an enabled node with
  \<open>thread_recurs\<close> 0 it returns false, although that node still has a run ahead: the
  ticks set its pending flag once the countdown has expired.
\<close>

theorem willRunAgain_spec:
  "(willRunAgain s g_pid \<longleftrightarrow>
      (\<exists>i. findNodeByPID s g_pid = Some i
          \<and> thread_enabled (schedule_root_node s ! i)
          \<and> (thread_recurs (schedule_root_node s ! i) = - 1
              \<or> 0 < sint (thread_recurs (schedule_root_node s ! i)))))
   \<and> (\<forall>i. findNodeByPID s g_pid = Some i
          \<and> thread_enabled (schedule_root_node s ! i)
          \<and> thread_recurs (schedule_root_node s ! i) = 0 \<longrightarrow>
        \<not> willRunAgain s g_pid
        \<and> thread_fire (schedule_root_node
            ((advanceScheduler ^^ Suc (unat (thread_time_to_wait (schedule_root_node s ! i)))) s) ! i))"
proof (intro conjI allI impI)
  show "willRunAgain s g_pid \<longleftrightarrow>
      (\<exists>i. findNodeByPID s g_pid = Some i
          \<and> thread_enabled (schedule_root_node s ! i)
          \<and> (thread_recurs (schedule_root_node s ! i) = - 1
              \<or> 0 < sint (thread_recurs (schedule_root_node s ! i))))"
    by (cases "findNodeByPID s g_pid") (simp_all add: willRunAgain_def Let_def word_sless_alt)
next
  fix i
  assume a: "findNodeByPID s g_pid = Some i
          \<and> thread_enabled (schedule_root_node s ! i)
          \<and> thread_recurs (schedule_root_node s ! i) = 0"
  then show "\<not> willRunAgain s g_pid"
    by (simp add: willRunAgain_def Let_def)
  from a have "findNodeByPID s g_pid = Some i" by simp
  then have i: "i < length (schedule_root_node s)"
    by (rule findNodeByPID_SomeD)
  from a i advance_node_fires [of "schedule_root_node s ! i"]
  show "thread_fire (schedule_root_node
            ((advanceScheduler ^^ Suc (unat (thread_time_to_wait (schedule_root_node s ! i)))) s) ! i)"
    by (simp add: advanceScheduler_iterated del: funpow.simps)
qed

theorem willRunAgain_spec_witness:
  "findNodeByPID (single 0 False) 1 = Some 0
   \<and> thread_enabled (schedule_root_node (single 0 False) ! 0)
   \<and> thread_recurs (schedule_root_node (single 0 False) ! 0) = 0
   \<and> \<not> willRunAgain (single 0 False) 1
   \<and> thread_fire (schedule_root_node ((advanceScheduler ^^ 3) (single 0 False)) ! 0)
   \<and> willRunAgain (single 5 False) 1
   \<and> willRunAgain (single (- 1) False) 1"
proof -
  have found: "findNodeByPID (single r False) 1 = Some 0" for r
    by (simp add: single_eq findNodeByPID_def)
  have three: "Suc (unat (thread_time_to_wait (schedule_root_node (single 0 False) ! 0))) = 3"
    by (simp add: single_eq)
  from willRunAgain_spec [of "single 0 False" 1] have
    "\<not> willRunAgain (single 0 False) 1
     \<and> thread_fire (schedule_root_node ((advanceScheduler ^^ 3) (single 0 False)) ! 0)"
    unfolding three [symmetric] using found [of 0] by (simp add: single_eq del: funpow.simps)
  moreover from willRunAgain_spec [of "single 5 False" 1] have "willRunAgain (single 5 False) 1"
    using found [of 5] by (simp add: single_eq)
  moreover from willRunAgain_spec [of "single (- 1) False" 1] have "willRunAgain (single (- 1) False) 1"
    using found [of "- 1"] by (simp add: single_eq)
  ultimately show ?thesis
    using found [of 0] by (simp add: single_eq)
qed

end
